theory Spec2Isabelle
  imports Complex_Main "HOL-Library.AList"
begin

section \<open>Strings and decimal numerals\<close>

text \<open>
  Python \<open>str\<close> values are modelled as \<open>string\<close> (lists of 8-bit characters, UTF-8
  bytes for text beyond ASCII). The helpers below are the fragments of the Python string
  library that \<open>rates-service/main.py\<close> calls.
\<close>

definition is_digit :: "char \<Rightarrow> bool" where
  "is_digit c = (c \<in> set ''0123456789'')"

definition digit_val :: "char \<Rightarrow> nat" where
  "digit_val c = of_char c - 48"

definition digit_char :: "nat \<Rightarrow> char" where
  "digit_char n = char_of (48 + n)"

text \<open>The value of a string of decimal digits, most significant digit first.\<close>

definition digits_val :: "string \<Rightarrow> nat" where
  "digits_val s = foldl (\<lambda>acc c. 10 * acc + digit_val c) 0 s"

fun show_nat :: "nat \<Rightarrow> string" where
  "show_nat n = (if n < 10 then [digit_char n] else show_nat (n div 10) @ [digit_char (n mod 10)])"

declare show_nat.simps [simp del]

text \<open>\<open>'%0wd' % n\<close> for a non-negative \<open>n\<close>.\<close>

definition zero_pad :: "nat \<Rightarrow> nat \<Rightarrow> string" where
  "zero_pad w n = (let s = show_nat n in replicate (w - length s) CHR ''0'' @ s)"

text \<open>\<open>s.split(c)\<close> with a one-character separator: never returns the empty list.\<close>

fun split_on :: "char \<Rightarrow> string \<Rightarrow> string list" where
  "split_on c [] = [[]]"
| "split_on c (x # xs) =
     (if x = c then [] # split_on c xs
      else (case split_on c xs of
              w # ws \<Rightarrow> (x # w) # ws
            | [] \<Rightarrow> [[x]]))"

text \<open>\<open>s.replace(a, b)\<close> for one-character \<open>a\<close> and \<open>b\<close>.\<close>

definition replace_char :: "char \<Rightarrow> char \<Rightarrow> string \<Rightarrow> string" where
  "replace_char a b s = map (\<lambda>c. if c = a then b else c) s"

text \<open>\<open>s.upper()\<close> on the ASCII letters; other bytes are left as they are.\<close>

definition upper_char :: "char \<Rightarrow> char" where
  "upper_char c =
     (let n = (of_char c :: nat) in if 97 \<le> n \<and> n \<le> 122 then char_of (n - 32) else c)"

definition upper :: "string \<Rightarrow> string" where
  "upper s = map upper_char s"

section \<open>Python exceptions\<close>

text \<open>
  An exception that leaves a function of the service is a value: \<open>Inl e\<close> of the result
  type \<open>exn + 'a\<close>. Nothing in the service catches these at the request boundary, so an
  \<open>Inl\<close> that reaches an endpoint is an aborted request (HTTP 500), not a response body.
\<close>

datatype exn = ValueError | TypeError | OverflowError | ZeroDivisionError | ParseError

section \<open>Calendar dates (\<open>datetime.date\<close>)\<close>

datatype date = Date (year: nat) (month: nat) (day: nat)

definition is_leap :: "nat \<Rightarrow> bool" where
  "is_leap y = (y mod 4 = 0 \<and> (y mod 100 \<noteq> 0 \<or> y mod 400 = 0))"

definition days_in_month :: "nat \<Rightarrow> nat \<Rightarrow> nat" where
  "days_in_month y m =
     (if m = 2 then (if is_leap y then 29 else 28)
      else if m \<in> {4, 6, 9, 11} then 30 else 31)"

definition days_before_year :: "nat \<Rightarrow> nat" where
  "days_before_year y = (let p = y - 1 in p * 365 + p div 4 - p div 100 + p div 400)"

definition DAYS_BEFORE_MONTH :: "nat list" where
  "DAYS_BEFORE_MONTH = [0, 0, 31, 59, 90, 120, 151, 181, 212, 243, 273, 304, 334]"

definition DAYS_IN_MONTH :: "nat list" where
  "DAYS_IN_MONTH = [0, 31, 28, 31, 30, 31, 30, 31, 31, 30, 31, 30, 31]"

definition days_before_month :: "nat \<Rightarrow> nat \<Rightarrow> nat" where
  "days_before_month y m = DAYS_BEFORE_MONTH ! m + (if m > 2 \<and> is_leap y then 1 else 0)"

text \<open>The constructor check of \<open>datetime.date(y, m, d)\<close>.\<close>

definition valid_date :: "date \<Rightarrow> bool" where
  "valid_date dt =
     (1 \<le> year dt \<and> year dt \<le> 9999 \<and> 1 \<le> month dt \<and> month dt \<le> 12 \<and>
      1 \<le> day dt \<and> day dt \<le> days_in_month (year dt) (month dt))"

definition toordinal :: "date \<Rightarrow> nat" where
  "toordinal dt = days_before_year (year dt) + days_before_month (year dt) (month dt) + day dt"

text \<open>\<open>_ord2ymd\<close> of the standard library, line by line.\<close>

definition ord2ymd :: "nat \<Rightarrow> date" where
  "ord2ymd n0 =
     (let n = n0 - 1;
          n400 = n div 146097; n = n mod 146097;
          y = n400 * 400 + 1;
          n100 = n div 36524; n = n mod 36524;
          n4 = n div 1461; n = n mod 1461;
          n1 = n div 365; n = n mod 365;
          y = y + n100 * 100 + n4 * 4 + n1
      in if n1 = 4 \<or> n100 = 4 then Date (y - 1) 12 31
         else
           (let leapyear = (n1 = 3 \<and> (n4 \<noteq> 24 \<or> n100 = 3));
                m = (n + 50) div 32;
                preceding = DAYS_BEFORE_MONTH ! m + (if m > 2 \<and> leapyear then 1 else 0)
            in if preceding > n
               then (let m' = m - 1;
                         preceding' = preceding
                           - (DAYS_IN_MONTH ! m' + (if m' = 2 \<and> leapyear then 1 else 0))
                     in Date y m' (n - preceding' + 1))
               else Date y m (n - preceding + 1)))"

text \<open>\<open>datetime.fromordinal(n).date()\<close>: \<open>ValueError\<close> outside \<open>1 .. date.max\<close>.\<close>

definition fromordinal :: "nat \<Rightarrow> exn + date" where
  "fromordinal n = (if 1 \<le> n \<and> n \<le> 3652059 then Inr (ord2ymd n) else Inl ValueError)"

text \<open>\<open>d.isoformat()\<close>, that is \<open>'%04d-%02d-%02d'\<close>.\<close>

definition isoformat :: "date \<Rightarrow> string" where
  "isoformat dt =
     zero_pad 4 (year dt) @ ''-'' @ zero_pad 2 (month dt) @ ''-'' @ zero_pad 2 (day dt)"

text \<open>\<open>d.strftime('%d/%m/%Y')\<close>, with the year padded to four digits.\<close>

definition strftime_dmY :: "date \<Rightarrow> string" where
  "strftime_dmY dt =
     zero_pad 2 (day dt) @ ''/'' @ zero_pad 2 (month dt) @ ''/'' @ zero_pad 4 (year dt)"

subsection \<open>\<open>datetime.strptime\<close>\<close>

text \<open>
  \<open>strptime\<close> compiles the format into a regular expression and matches it against the
  start of the input with backtracking; a match that does not reach the end of the input
  is a \<open>ValueError\<close>, and so is a matched triple that is no calendar date. Each directive
  is modelled by the list of its alternatives that match, in the order the expression
  tries them, each with the input left over:
  \<^item> \<open>%Y\<close> is \<open>\d\d\d\d\<close>;
  \<^item> \<open>%m\<close> is \<open>1[0-2]|0[1-9]|[1-9]\<close>;
  \<^item> \<open>%d\<close> is \<open>3[0-1]|[1-2]\d|0[1-9]|[1-9]| [1-9]\<close>.
\<close>

definition re_Y :: "string \<Rightarrow> (nat \<times> string) list" where
  "re_Y s =
     (case s of
        a # b # c # d # r \<Rightarrow>
          if is_digit a \<and> is_digit b \<and> is_digit c \<and> is_digit d
          then [(digits_val [a, b, c, d], r)] else []
      | _ \<Rightarrow> [])"

definition re_m :: "string \<Rightarrow> (nat \<times> string) list" where
  "re_m s =
     (case s of
        a # b # r \<Rightarrow>
          (if a = CHR ''1'' \<and> b \<in> set ''012'' then [(digits_val [a, b], r)] else []) @
          (if a = CHR ''0'' \<and> b \<in> set ''123456789'' then [(digits_val [a, b], r)] else [])
      | _ \<Rightarrow> []) @
     (case s of
        a # r \<Rightarrow> if a \<in> set ''123456789'' then [(digit_val a, r)] else []
      | _ \<Rightarrow> [])"

definition re_d :: "string \<Rightarrow> (nat \<times> string) list" where
  "re_d s =
     (case s of
        a # b # r \<Rightarrow>
          (if a = CHR ''3'' \<and> b \<in> set ''01'' then [(digits_val [a, b], r)] else []) @
          (if a \<in> set ''12'' \<and> is_digit b then [(digits_val [a, b], r)] else []) @
          (if a = CHR ''0'' \<and> b \<in> set ''123456789'' then [(digits_val [a, b], r)] else [])
      | _ \<Rightarrow> []) @
     (case s of
        a # r \<Rightarrow> if a \<in> set ''123456789'' then [(digit_val a, r)] else []
      | _ \<Rightarrow> []) @
     (case s of
        a # b # r \<Rightarrow>
          if a = CHR '' '' \<and> b \<in> set ''123456789'' then [(digit_val b, r)] else []
      | _ \<Rightarrow> [])"

definition re_lit :: "char \<Rightarrow> string \<Rightarrow> string list" where
  "re_lit c s = (case s of x # r \<Rightarrow> if x = c then [r] else [] | [] \<Rightarrow> [])"

text \<open>What follows the regular expression's match: the length check and the date check.\<close>

definition finish_strptime :: "(date \<times> string) list \<Rightarrow> exn + date" where
  "finish_strptime ms =
     (case ms of
        [] \<Rightarrow> Inl ValueError
      | (dt, rest) # _ \<Rightarrow>
          if rest \<noteq> [] then Inl ValueError
          else if valid_date dt then Inr dt else Inl ValueError)"

text \<open>\<open>datetime.strptime(s, '%Y-%m-%d').date()\<close>\<close>

definition strptime_Ymd :: "string \<Rightarrow> exn + date" where
  "strptime_Ymd s =
     finish_strptime
       [(Date y m d, r5).
          (y, r1) \<leftarrow> re_Y s, r2 \<leftarrow> re_lit CHR ''-'' r1,
          (m, r3) \<leftarrow> re_m r2, r4 \<leftarrow> re_lit CHR ''-'' r3,
          (d, r5) \<leftarrow> re_d r4]"

text \<open>\<open>datetime.strptime(s, '%d.%m.%Y').date()\<close>\<close>

definition strptime_dmY :: "string \<Rightarrow> exn + date" where
  "strptime_dmY s =
     finish_strptime
       [(Date y m d, r5).
          (d, r1) \<leftarrow> re_d s, r2 \<leftarrow> re_lit CHR ''.'' r1,
          (m, r3) \<leftarrow> re_m r2, r4 \<leftarrow> re_lit CHR ''.'' r3,
          (y, r5) \<leftarrow> re_Y r4]"

section \<open>DateCodec\<close>

text \<open>
  \<open>_date_to_cbr\<close>: \<open>None\<close> and the empty string give \<open>None\<close>; any other string goes
  through \<open>strptime\<close>, whose \<open>ValueError\<close> is not caught here.
\<close>

definition date_to_cbr :: "string option \<Rightarrow> exn + string option" where
  "date_to_cbr date_iso =
     (case date_iso of
        None \<Rightarrow> Inr None
      | Some s \<Rightarrow>
          if s = [] then Inr None
          else (case strptime_Ymd s of
                  Inl e \<Rightarrow> Inl e
                | Inr dt \<Rightarrow> Inr (Some (strftime_dmY dt))))"

text \<open>
  \<open>_ddmmyyyy_to_iso\<close>: the unpacking \<open>d, m, y = ddmmyyyy.split('.')\<close> raises unless the
  split has exactly three parts; the exception is caught and becomes \<open>None\<close>.
\<close>

definition ddmmyyyy_to_iso :: "string option \<Rightarrow> string option" where
  "ddmmyyyy_to_iso ddmmyyyy =
     (case ddmmyyyy of
        None \<Rightarrow> None
      | Some s \<Rightarrow>
          if s = [] then None
          else (case split_on CHR ''.'' s of
                  [d, m, y] \<Rightarrow> Some (y @ ''-'' @ m @ ''-'' @ d)
                | _ \<Rightarrow> None))"

section \<open>Numbers\<close>

subsection \<open>Floats\<close>

text \<open>
  A Python \<open>float\<close> is modelled by its value: a rational, an infinity or not-a-number.
  Rounding to 53 bits, overflow to infinity, underflow to zero and the sign of zero are not
  represented; the special values are, since \<open>float\<close> parses \<open>inf\<close> and \<open>nan\<close> and the
  service's truth tests and divisions treat them differently from numbers.
\<close>

datatype pyfloat = Finite rat | PosInf | NegInf | NaN

text \<open>\<open>bool(x)\<close>: only zero is false.\<close>

definition truthy :: "pyfloat \<Rightarrow> bool" where
  "truthy x = (x \<noteq> Finite 0)"

fun fdiv_nz :: "pyfloat \<Rightarrow> pyfloat \<Rightarrow> pyfloat" where
  "fdiv_nz NaN _ = NaN"
| "fdiv_nz _ NaN = NaN"
| "fdiv_nz (Finite a) (Finite b) = Finite (a / b)"
| "fdiv_nz (Finite a) _ = Finite 0"
| "fdiv_nz PosInf (Finite b) = (if b > 0 then PosInf else NegInf)"
| "fdiv_nz NegInf (Finite b) = (if b > 0 then NegInf else PosInf)"
| "fdiv_nz _ _ = NaN"

text \<open>\<open>x / y\<close> on floats: Python raises on a zero divisor.\<close>

definition fdiv :: "pyfloat \<Rightarrow> pyfloat \<Rightarrow> exn + pyfloat" where
  "fdiv x y = (if y = Finite 0 then Inl ZeroDivisionError else Inr (fdiv_nz x y))"

fun fmul :: "pyfloat \<Rightarrow> pyfloat \<Rightarrow> pyfloat" where
  "fmul NaN _ = NaN"
| "fmul _ NaN = NaN"
| "fmul (Finite a) (Finite b) = Finite (a * b)"
| "fmul (Finite a) PosInf = (if a = 0 then NaN else if a > 0 then PosInf else NegInf)"
| "fmul (Finite a) NegInf = (if a = 0 then NaN else if a > 0 then NegInf else PosInf)"
| "fmul PosInf (Finite b) = (if b = 0 then NaN else if b > 0 then PosInf else NegInf)"
| "fmul NegInf (Finite b) = (if b = 0 then NaN else if b > 0 then NegInf else PosInf)"
| "fmul PosInf PosInf = PosInf"
| "fmul NegInf NegInf = PosInf"
| "fmul PosInf NegInf = NegInf"
| "fmul NegInf PosInf = NegInf"

text \<open>
  \<open>float(n)\<close> for an \<open>int\<close>, as the mixed division \<open>x / n\<close> performs it: an integer that
  rounds beyond the largest double is an \<open>OverflowError\<close>.
\<close>

definition float_of_int :: "int \<Rightarrow> exn + pyfloat" where
  "float_of_int n =
     (if \<bar>n\<bar> \<ge> 2 ^ 1024 - 2 ^ 970 then Inl OverflowError else Inr (Finite (of_int n)))"

definition fdiv_int :: "pyfloat \<Rightarrow> int \<Rightarrow> exn + pyfloat" where
  "fdiv_int x n = (case float_of_int n of Inl e \<Rightarrow> Inl e | Inr y \<Rightarrow> fdiv x y)"

subsection \<open>Parsing numbers: \<open>int(s)\<close> and \<open>float(s)\<close>\<close>

definition is_space :: "char \<Rightarrow> bool" where
  "is_space c = (let n = (of_char c :: nat) in (9 \<le> n \<and> n \<le> 13) \<or> (28 \<le> n \<and> n \<le> 32))"

definition strip :: "string \<Rightarrow> string" where
  "strip s = rev (dropWhile is_space (rev (dropWhile is_space s)))"

text \<open>
  A digit part is \<open>digit (["_"] digit)*\<close>. \<open>digitpart_tail\<close> reads what follows the first
  digit and returns the digits read and the input left over.
\<close>

fun digitpart_tail :: "string \<Rightarrow> string \<times> string" where
  "digitpart_tail [] = ([], [])"
| "digitpart_tail [c] = (if is_digit c then ([c], []) else ([], [c]))"
| "digitpart_tail (c # d # cs) =
     (if is_digit c then (case digitpart_tail (d # cs) of (ds, r) \<Rightarrow> (c # ds, r))
      else if c = CHR ''_'' \<and> is_digit d then (case digitpart_tail cs of (ds, r) \<Rightarrow> (d # ds, r))
      else ([], c # d # cs))"

definition digitpart :: "string \<Rightarrow> string \<times> string" where
  "digitpart s =
     (case s of
        [] \<Rightarrow> ([], [])
      | c # cs \<Rightarrow>
          if is_digit c then (case digitpart_tail cs of (ds, r) \<Rightarrow> (c # ds, r)) else ([], s))"

text \<open>An optional sign: \<open>True\<close> for a minus.\<close>

definition take_sign :: "string \<Rightarrow> bool \<times> string" where
  "take_sign s =
     (case s of
        c # cs \<Rightarrow> if c = CHR ''-'' then (True, cs) else if c = CHR ''+'' then (False, cs) else (False, s)
      | [] \<Rightarrow> (False, []))"

text \<open>\<open>int(s)\<close> in base ten; \<open>None\<close> stands for the \<open>ValueError\<close>.\<close>

definition int_of_string :: "string \<Rightarrow> int option" where
  "int_of_string s =
     (case take_sign (strip s) of
        (neg, r) \<Rightarrow>
          (case digitpart r of
             (ds, rest) \<Rightarrow>
               if ds = [] \<or> rest \<noteq> [] then None
               else Some (if neg then - int (digits_val ds) else int (digits_val ds))))"

text \<open>The exponent of a float literal: absent, or \<open>e\<close>/\<open>E\<close>, an optional sign and a digit part.\<close>

definition exponent :: "string \<Rightarrow> int option" where
  "exponent s =
     (case s of
        [] \<Rightarrow> Some 0
      | c # cs \<Rightarrow>
          if c = CHR ''e'' \<or> c = CHR ''E'' then
            (case take_sign cs of
               (neg, r) \<Rightarrow>
                 (case digitpart r of
                    (ds, rest) \<Rightarrow>
                      if ds = [] \<or> rest \<noteq> [] then None
                      else Some (if neg then - int (digits_val ds) else int (digits_val ds))))
          else None)"

definition pow10 :: "int \<Rightarrow> rat" where
  "pow10 e = (if e \<ge> 0 then 10 ^ nat e else 1 / 10 ^ nat (- e))"

text \<open>The unsigned decimal literal \<open>[digits] ["." [digits]] [exponent]\<close> with at least one digit.\<close>

definition decimal :: "string \<Rightarrow> rat option" where
  "decimal s =
     (case digitpart s of
        (ip, r1) \<Rightarrow>
          (case (case r1 of
                   c # cs \<Rightarrow> if c = CHR ''.'' then digitpart cs else ([], r1)
                 | [] \<Rightarrow> ([], r1)) of
             (fp, r2) \<Rightarrow>
               if ip = [] \<and> fp = [] then None
               else (case exponent r2 of
                       None \<Rightarrow> None
                     | Some e \<Rightarrow>
                         Some (of_nat (digits_val (ip @ fp)) * pow10 (e - int (length fp))))))"

text \<open>\<open>float(s)\<close>; \<open>None\<close> stands for the \<open>ValueError\<close>.\<close>

definition float_of_string :: "string \<Rightarrow> pyfloat option" where
  "float_of_string s =
     (case take_sign (strip s) of
        (neg, r) \<Rightarrow>
          let w = map (\<lambda>c. if c \<in> set ''INFTYA'' then char_of (of_char c + (32::nat)) else c) r in
          if w = ''inf'' \<or> w = ''infinity'' then Some (if neg then NegInf else PosInf)
          else if w = ''nan'' then Some NaN
          else (case decimal r of
                  None \<Rightarrow> None
                | Some q \<Rightarrow> Some (Finite (if neg then - q else q))))"

section \<open>The feed: HTTP responses and element trees\<close>

text \<open>
  An \<open>xml.etree\<close> element with the three accessors the service uses. Only direct
  children are searched, as \<open>findall\<close> and \<open>findtext\<close> do for a plain tag name.
\<close>

datatype element =
  Element (tag: string) (attrib: "(string \<times> string) list") (elem_text: "string option")
    (children: "element list")

definition findall :: "string \<Rightarrow> element \<Rightarrow> element list" where
  "findall t e = filter (\<lambda>c. tag c = t) (children e)"

text \<open>\<open>findtext\<close>: \<open>None\<close> without such a child, the empty string for a child without text.\<close>

definition findtext :: "string \<Rightarrow> element \<Rightarrow> string option" where
  "findtext t e =
     (case findall t e of
        [] \<Rightarrow> None
      | c # _ \<Rightarrow> Some (case elem_text c of None \<Rightarrow> [] | Some s \<Rightarrow> s))"

definition attrib_get :: "string \<Rightarrow> element \<Rightarrow> string option" where
  "attrib_get k e = map_of (attrib e) k"

text \<open>\<open>x or d\<close> for an optional string: \<open>None\<close> and the empty string are false.\<close>

definition or_default :: "string option \<Rightarrow> string \<Rightarrow> string" where
  "or_default x d = (case x of None \<Rightarrow> d | Some s \<Rightarrow> if s = [] then d else s)"

text \<open>
  What \<open>requests.get\<close> gives: an exception (with its text), or a response with its status,
  its body, and the tree \<open>ET.fromstring\<close> builds from that body (\<open>None\<close> when the body
  is not well-formed, which raises \<open>ParseError\<close>).
\<close>

datatype http_outcome =
  RequestException string
| HttpResponse (status_code: int) (body: string) (tree: "element option")

type_synonym params = "(string \<times> string option) list"

definition CBR_DAILY_XML :: string where
  "CBR_DAILY_XML = ''https://www.cbr.ru/scripts/XML_daily.asp''"

definition CBR_DYNAMIC_XML :: string where
  "CBR_DYNAMIC_XML = ''https://www.cbr.ru/scripts/XML_dynamic.asp''"

definition TTL_SECONDS :: rat where
  "TTL_SECONDS = 60 * 15"

section \<open>Response bodies\<close>

record item =
  item_id :: "string option"
  item_num_code :: "string option"
  item_char_code :: string
  item_name :: string
  item_nominal :: int
  item_value :: "pyfloat option"

text \<open>An entry of the dictionary \<open>rates\<close> that \<open>fetch_daily\<close> builds.\<close>

record rate =
  rate_rub_per_unit :: pyfloat
  rate_nominal :: int
  rate_name :: string
  rate_id :: "string option"

text \<open>An entry of \<open>rates_map\<close> in the payload: the same without the nominal.\<close>

record rate_info =
  info_rub_per_unit :: pyfloat
  info_name :: string
  info_id :: "string option"

record snapshot =
  data_date :: "string option"
  data_count :: nat
  data_items :: "item list"
  data_requested_date_iso :: "string option"
  data_rates_map :: "(string \<times> rate_info) list"

record history_point =
  point_date :: string
  point_rub_per_unit :: pyfloat

record history =
  hist_code :: string
  hist_name :: string
  hist_from :: string
  hist_to :: string
  hist_points :: "history_point list"

record conversion =
  conv_date :: "string option"
  conv_from :: string
  conv_to :: string
  conv_amount :: pyfloat
  conv_rate :: "pyfloat option"
  conv_result :: "pyfloat option"

text \<open>
  The messages of the \<open>{'error': ...}\<close> dictionaries, by the format string that builds
  each and its arguments:
  \<^item> \<open>NetworkError e\<close>: \<open>'Network error: {e}'\<close>;
  \<^item> \<open>CBRReturned c\<close>: \<open>'CBR returned {c}'\<close>;
  \<^item> \<open>BadDates\<close>: \<open>'bad dates'\<close>;
  \<^item> \<open>CodeNotFound c\<close>: the history endpoint's message for an unknown code \<open>c\<close>;
  \<^item> \<open>CurrencyNotFound c d\<close>: the conversion endpoint's message for a code \<open>c\<close> that the
    snapshot of date \<open>d\<close> does not have;
  \<^item> \<open>DateMismatch q d\<close>: the strict mode's message for the requested date \<open>q\<close> and the
    feed's date \<open>d\<close>.
\<close>

datatype message =
  NetworkError string
| CBRReturned int
| BadDates
| CodeNotFound string
| CurrencyNotFound string "string option"
| DateMismatch string "string option"

text \<open>The dictionaries the functions return; \<open>ErrorDict m details\<close> is the one with the key \<open>error\<close>.\<close>

datatype payload =
  ErrorDict message "string option"
| Snapshot snapshot
| History history
| Conversion conversion

text \<open>\<open>'error' in data\<close>\<close>

fun has_error :: "payload \<Rightarrow> bool" where
  "has_error (ErrorDict _ _) = True"
| "has_error _ = False"

text \<open>\<open>data.get('rates_map') or {}\<close> and \<open>data.get('date')\<close>\<close>

fun get_rates_map :: "payload \<Rightarrow> (string \<times> rate_info) list" where
  "get_rates_map (Snapshot d) = data_rates_map d"
| "get_rates_map _ = []"

fun get_date :: "payload \<Rightarrow> string option" where
  "get_date (Snapshot d) = data_date d"
| "get_date _ = None"

section \<open>The world: clock, upstream and cache\<close>

text \<open>
  The environment answers the calls that leave the process: \<open>time_time env k\<close> is the
  value of the \<open>k\<close>-th reading of \<open>time.time()\<close>, and \<open>http_get env k url params\<close> the
  outcome of the \<open>k\<close>-th \<open>requests.get\<close>. The state holds the module's dictionary
  \<open>_cache\<close>, the log of the requests sent so far and the number of clock readings.
\<close>

record env =
  time_time :: "nat \<Rightarrow> rat"
  http_get :: "nat \<Rightarrow> string \<Rightarrow> params \<Rightarrow> http_outcome"

type_synonym cache_key = "string \<times> string option"

record state =
  cache :: "cache_key \<rightharpoonup> rat \<times> snapshot"
  upstream_calls :: "(string \<times> params) list"
  clock_reads :: nat

definition read_clock :: "env \<Rightarrow> state \<Rightarrow> rat \<times> state" where
  "read_clock env st = (time_time env (clock_reads st), st\<lparr>clock_reads := Suc (clock_reads st)\<rparr>)"

definition requests_get :: "env \<Rightarrow> string \<Rightarrow> params \<Rightarrow> state \<Rightarrow> http_outcome \<times> state" where
  "requests_get env url ps st =
     (http_get env (length (upstream_calls st)) url ps,
      st\<lparr>upstream_calls := upstream_calls st @ [(url, ps)]\<rparr>)"

section \<open>SnapshotFetcher: \<open>fetch_daily\<close>\<close>

definition RUB_NAME :: string where
  "RUB_NAME = map char_of
     [208, 160, 208, 190, 209, 129, 209, 129, 208, 184, 208, 185, 209, 129, 208, 186, 208, 184,
      208, 185, 32, 209, 128, 209, 131, 208, 177, 208, 187, 209, 140 :: nat]"

definition RUB_RATE :: rate where
  "RUB_RATE = \<lparr>rate_rub_per_unit = Finite 1, rate_nominal = 1, rate_name = RUB_NAME,
     rate_id = Some ''RUB''\<rparr>"

text \<open>
  One round of the loop over \<open>root.findall('Valute')\<close>, on the lists \<open>items\<close> and
  \<open>rates\<close>. The \<open>int\<close> of the nominal is outside any \<open>try\<close>; the \<open>float\<close> of the value
  is inside one.
\<close>

definition valute_step ::
  "element \<Rightarrow> item list \<times> (string \<times> rate) list \<Rightarrow> exn + item list \<times> (string \<times> rate) list" where
  "valute_step valute acc =
     (let (items, rates) = acc;
          charcode = upper (or_default (findtext ''CharCode'' valute) []);
          name = or_default (findtext ''Name'' valute) []
      in (case int_of_string (or_default (findtext ''Nominal'' valute) ''1'') of
           None \<Rightarrow> Inl ValueError
         | Some nominal \<Rightarrow>
            (let value_text = replace_char CHR '','' CHR ''.'' (or_default (findtext ''Value'' valute) ''0'');
                 val = float_of_string value_text;
                 numcode = findtext ''NumCode'' valute;
                 vid = attrib_get ''ID'' valute;
                 it = \<lparr>item_id = vid, item_num_code = numcode, item_char_code = charcode,
                        item_name = name, item_nominal = nominal, item_value = val\<rparr>;
                 items = items @ [it]
             in (case val of
                   None \<Rightarrow> Inr (items, rates)
                 | Some v \<Rightarrow>
                     if charcode \<noteq> [] \<and> nominal > 0 then
                       (case fdiv_int v nominal of
                          Inl e \<Rightarrow> Inl e
                        | Inr q \<Rightarrow>
                            Inr (items,
                                 AList.update charcode
                                   \<lparr>rate_rub_per_unit = q, rate_nominal = nominal, rate_name = name,
                                    rate_id = vid\<rparr> rates))
                     else Inr (items, rates)))))"

fun valute_loop ::
  "element list \<Rightarrow> item list \<times> (string \<times> rate) list \<Rightarrow> exn + item list \<times> (string \<times> rate) list" where
  "valute_loop [] acc = Inr acc"
| "valute_loop (v # vs) acc =
     (case valute_step v acc of Inl e \<Rightarrow> Inl e | Inr acc' \<Rightarrow> valute_loop vs acc')"

text \<open>The lists \<open>items\<close> and \<open>rates\<close> after the loop and the line that adds the rouble.\<close>

definition daily_rates :: "element \<Rightarrow> exn + item list \<times> (string \<times> rate) list" where
  "daily_rates doc =
     (case valute_loop (findall ''Valute'' doc) ([], []) of
        Inl e \<Rightarrow> Inl e
      | Inr (items, rates) \<Rightarrow> Inr (items, AList.update ''RUB'' RUB_RATE rates))"

definition rate_to_info :: "rate \<Rightarrow> rate_info" where
  "rate_to_info v =
     \<lparr>info_rub_per_unit = rate_rub_per_unit v, info_name = rate_name v, info_id = rate_id v\<rparr>"

text \<open>The dictionary \<open>data\<close> built from a parsed response.\<close>

definition daily_data :: "element \<Rightarrow> string option \<Rightarrow> exn + snapshot" where
  "daily_data doc date_iso =
     (let date_attr = attrib_get ''Date'' doc
      in case daily_rates doc of
           Inl e \<Rightarrow> Inl e
         | Inr (items, rates) \<Rightarrow>
             Inr \<lparr>data_date = date_attr, data_count = length items, data_items = items,
                  data_requested_date_iso = date_iso,
                  data_rates_map = map (\<lambda>(k, v). (k, rate_to_info v)) rates\<rparr>)"

text \<open>The test at the head of \<open>fetch_daily\<close>: the cached payload when it is fresh.\<close>

definition cache_lookup :: "state \<Rightarrow> cache_key \<Rightarrow> rat \<Rightarrow> snapshot option" where
  "cache_lookup st key now =
     (case cache st key of
        None \<Rightarrow> None
      | Some (ts, data) \<Rightarrow> if now - ts < TTL_SECONDS then Some data else None)"

definition fetch_daily :: "env \<Rightarrow> string option \<Rightarrow> state \<Rightarrow> (exn + payload) \<times> state" where
  "fetch_daily env date_iso st0 =
     (let key = (''daily'', date_iso);
          (now, st) = read_clock env st0
      in case cache_lookup st key now of
           Some data \<Rightarrow> (Inr (Snapshot data), st)
         | None \<Rightarrow>
             (case date_to_cbr date_iso of
                Inl e \<Rightarrow> (Inl e, st)
              | Inr cbr_date \<Rightarrow>
                 (let ps = (case cbr_date of
                              None \<Rightarrow> []
                            | Some c \<Rightarrow> if c = [] then [] else [(''date_req'', Some c)]);
                      (r, st) = requests_get env CBR_DAILY_XML ps st
                  in (case r of
                        RequestException e \<Rightarrow> (Inr (ErrorDict (NetworkError e) None), st)
                      | HttpResponse code txt tr \<Rightarrow>
                          if code \<noteq> 200
                          then (Inr (ErrorDict (CBRReturned code) (Some (take 300 txt))), st)
                          else (case tr of
                                  None \<Rightarrow> (Inl ParseError, st)
                                | Some doc \<Rightarrow>
                                    (case daily_data doc date_iso of
                                       Inl e \<Rightarrow> (Inl e, st)
                                     | Inr data \<Rightarrow>
                                         (Inr (Snapshot data),
                                          st\<lparr>cache := (cache st)(key \<mapsto> (now, data))\<rparr>)))))))"

section \<open>IdentifierResolver: \<open>get_valute_id\<close>\<close>

definition get_valute_id ::
  "env \<Rightarrow> string \<Rightarrow> string option \<Rightarrow> state \<Rightarrow> (exn + string option) \<times> state" where
  "get_valute_id env char_code date_iso st0 =
     (case fetch_daily env date_iso st0 of
        (Inl e, st) \<Rightarrow> (Inl e, st)
      | (Inr data, st) \<Rightarrow>
          if has_error data then (Inr None, st)
          else (Inr (case map_of (get_rates_map data) (upper char_code) of
                       None \<Rightarrow> None
                     | Some info \<Rightarrow> info_id info), st))"

section \<open>HistorySynthesizer: \<open>fetch_history\<close>\<close>

text \<open>\<open>a < b\<close> on \<open>datetime.date\<close> values compares year, month and day in this order.\<close>

definition date_less :: "date \<Rightarrow> date \<Rightarrow> bool" where
  "date_less a b =
     (year a < year b \<or> (year a = year b \<and>
       (month a < month b \<or> (month a = month b \<and> day a < day b))))"

text \<open>The loop of the rouble branch over \<open>range(delta + 1)\<close>, appending to \<open>points\<close>.\<close>

fun rub_points :: "nat \<Rightarrow> nat list \<Rightarrow> history_point list \<Rightarrow> exn + history_point list" where
  "rub_points base [] points = Inr points"
| "rub_points base (i # is) points =
     (case fromordinal (base + i) of
        Inl e \<Rightarrow> Inl e
      | Inr d \<Rightarrow>
          rub_points base is
            (points @ [\<lparr>point_date = isoformat d, point_rub_per_unit = Finite 1\<rparr>]))"

text \<open>
  One \<open>Record\<close> of the ranged feed: both \<open>try\<close> blocks turn any exception into \<open>None\<close>
  (\<open>strptime\<close> of a missing \<open>Date\<close> attribute is a \<open>TypeError\<close>), and the record gives a
  point only when both the date and the value came out.
\<close>

definition record_point :: "element \<Rightarrow> history_point option" where
  "record_point rec =
     (let date_attr = attrib_get ''Date'' rec;
          val_text = replace_char CHR '','' CHR ''.'' (or_default (findtext ''Value'' rec) ''0'');
          nom_text = or_default (findtext ''Nominal'' rec) ''1'';
          per_unit =
            (case float_of_string val_text of
               None \<Rightarrow> None
             | Some v \<Rightarrow>
                 (case int_of_string nom_text of
                    None \<Rightarrow> None
                  | Some nominal \<Rightarrow>
                      if nominal \<noteq> 0
                      then (case fdiv_int v nominal of Inl e \<Rightarrow> None | Inr q \<Rightarrow> Some q)
                      else None));
          date_iso =
            (case date_attr of
               None \<Rightarrow> None
             | Some s \<Rightarrow> (case strptime_dmY s of Inl e \<Rightarrow> None | Inr dt \<Rightarrow> Some (isoformat dt)))
      in (case (date_iso, per_unit) of
            (Some d, Some q) \<Rightarrow>
              if d \<noteq> [] then Some \<lparr>point_date = d, point_rub_per_unit = q\<rparr> else None
          | _ \<Rightarrow> None))"

fun record_loop :: "element list \<Rightarrow> history_point list \<Rightarrow> history_point list" where
  "record_loop [] points = points"
| "record_loop (r # rs) points =
     record_loop rs (case record_point r of None \<Rightarrow> points | Some p \<Rightarrow> points @ [p])"

text \<open>The general branch from the ranged request on, once the identifier is known.\<close>

definition fetch_dynamic ::
  "env \<Rightarrow> string \<Rightarrow> string \<Rightarrow> string \<Rightarrow> string \<Rightarrow> state \<Rightarrow> (exn + payload) \<times> state" where
  "fetch_dynamic env code val_id date_from date_to st0 =
     (case date_to_cbr (Some date_from) of
        Inl e \<Rightarrow> (Inl e, st0)
      | Inr req1 \<Rightarrow>
          (case date_to_cbr (Some date_to) of
             Inl e \<Rightarrow> (Inl e, st0)
           | Inr req2 \<Rightarrow>
              (let ps = [(''date_req1'', req1), (''date_req2'', req2), (''VAL_NM_RQ'', Some val_id)];
                   (r, st) = requests_get env CBR_DYNAMIC_XML ps st0
               in (case r of
                     RequestException e \<Rightarrow> (Inr (ErrorDict (NetworkError e) None), st)
                   | HttpResponse status txt tr \<Rightarrow>
                       if status \<noteq> 200 then (Inr (ErrorDict (CBRReturned status) None), st)
                       else (case tr of
                               None \<Rightarrow> (Inl ParseError, st)
                             | Some doc \<Rightarrow>
                                (let points = record_loop (findall ''Record'' doc) []
                                 in (case fetch_daily env None st of
                                       (Inl e, st) \<Rightarrow> (Inl e, st)
                                     | (Inr data, st) \<Rightarrow>
                                        (let name = (case map_of (get_rates_map data) code of
                                                       None \<Rightarrow> code
                                                     | Some info \<Rightarrow> info_name info)
                                         in (Inr (History \<lparr>hist_code = code, hist_name = name,
                                                    hist_from = date_from, hist_to = date_to,
                                                    hist_points = points\<rparr>), st)))))))))"

definition fetch_history ::
  "env \<Rightarrow> string \<Rightarrow> string \<Rightarrow> string \<Rightarrow> state \<Rightarrow> (exn + payload) \<times> state" where
  "fetch_history env code0 date_from date_to st0 =
     (let code = upper code0
      in if code = ''RUB'' then
           (case (strptime_Ymd date_from, strptime_Ymd date_to) of
              (Inr dt_from0, Inr dt_to0) \<Rightarrow>
                (let (dt_from, dt_to) =
                       (if date_less dt_to0 dt_from0 then (dt_to0, dt_from0) else (dt_from0, dt_to0));
                     delta = int (toordinal dt_to) - int (toordinal dt_from)
                 in (case rub_points (toordinal dt_from) [0 ..< nat (delta + 1)] [] of
                       Inl e \<Rightarrow> (Inl e, st0)
                     | Inr points \<Rightarrow>
                         (Inr (History \<lparr>hist_code = ''RUB'', hist_name = RUB_NAME,
                                 hist_from = date_from, hist_to = date_to,
                                 hist_points = points\<rparr>), st0)))
            | _ \<Rightarrow> (Inr (ErrorDict BadDates None), st0))
         else
           (case get_valute_id env code None st0 of
              (Inl e, st) \<Rightarrow> (Inl e, st)
            | (Inr val_id, st) \<Rightarrow>
                (case val_id of
                   None \<Rightarrow> (Inr (ErrorDict (CodeNotFound code) None), st)
                 | Some v \<Rightarrow>
                     if v = [] then (Inr (ErrorDict (CodeNotFound code) None), st)
                     else fetch_dynamic env code v date_from date_to st)))"

section \<open>ConversionEngine\<close>

text \<open>The body of \<open>cbr_convert\<close> after the snapshot is there: lookup, cross rate, amount.\<close>

definition convert ::
  "(string \<times> rate_info) list \<Rightarrow> string option \<Rightarrow> string \<Rightarrow> string \<Rightarrow> pyfloat \<Rightarrow> exn + payload" where
  "convert rates_map date from_code to_code amount =
     (let f = upper from_code; t = upper to_code
      in (case map_of rates_map f of
            None \<Rightarrow> Inr (ErrorDict (CurrencyNotFound f date) None)
          | Some from_info \<Rightarrow>
              (case map_of rates_map t of
                 None \<Rightarrow> Inr (ErrorDict (CurrencyNotFound t date) None)
               | Some to_info \<Rightarrow>
                  (let rub_per_from = info_rub_per_unit from_info;
                       rub_per_to = info_rub_per_unit to_info
                   in (case (if truthy rub_per_to
                             then map_sum id Some (fdiv rub_per_from rub_per_to)
                             else Inr None) of
                         Inl e \<Rightarrow> Inl e
                       | Inr rate \<Rightarrow>
                          (let result = (case rate of None \<Rightarrow> None | Some r \<Rightarrow> Some (fmul amount r))
                           in Inr (Conversion \<lparr>conv_date = date, conv_from = f, conv_to = t,
                                     conv_amount = amount, conv_rate = rate,
                                     conv_result = result\<rparr>)))))))"

section \<open>The endpoints\<close>

definition cbr_daily ::
  "env \<Rightarrow> string option \<Rightarrow> bool \<Rightarrow> state \<Rightarrow> (exn + payload) \<times> state" where
  "cbr_daily env date strict st0 =
     (case fetch_daily env date st0 of
        (Inl e, st) \<Rightarrow> (Inl e, st)
      | (Inr data, st) \<Rightarrow>
          if has_error data then (Inr data, st)
          else (case date of
                  None \<Rightarrow> (Inr data, st)
                | Some d \<Rightarrow>
                    if strict \<and> d \<noteq> [] then
                      (let cbr_iso = ddmmyyyy_to_iso (get_date data)
                       in if cbr_iso \<noteq> None \<and> cbr_iso \<noteq> Some [] \<and> cbr_iso \<noteq> Some d
                          then (Inr (ErrorDict (DateMismatch d (get_date data)) None), st)
                          else (Inr data, st))
                    else (Inr data, st)))"

definition cbr_history ::
  "env \<Rightarrow> string \<Rightarrow> string \<Rightarrow> string \<Rightarrow> state \<Rightarrow> (exn + payload) \<times> state" where
  "cbr_history env code date_from date_to st = fetch_history env code date_from date_to st"

definition cbr_convert ::
  "env \<Rightarrow> string \<Rightarrow> string \<Rightarrow> pyfloat \<Rightarrow> string option \<Rightarrow> state \<Rightarrow> (exn + payload) \<times> state" where
  "cbr_convert env from_code to_code amount date st0 =
     (case fetch_daily env date st0 of
        (Inl e, st) \<Rightarrow> (Inl e, st)
      | (Inr data, st) \<Rightarrow>
          if has_error data then (Inr data, st)
          else (convert (get_rates_map data) (get_date data) from_code to_code amount, st))"

section \<open>Sample feeds and worlds\<close>

text \<open>
  Concrete documents of the daily and the ranged feed, an environment that serves them,
  and the state of a freshly started process. The theorems below are run on them.
\<close>

definition sample_valute :: "string \<Rightarrow> string \<Rightarrow> string option \<Rightarrow> string option \<Rightarrow> element" where
  "sample_valute vid code nominal val =
     Element ''Valute'' [(''ID'', vid)] None
       ([Element ''NumCode'' [] (Some ''000'') [], Element ''CharCode'' [] (Some code) [],
         Element ''Name'' [] (Some code) []] @
        (case nominal of None \<Rightarrow> [] | Some n \<Rightarrow> [Element ''Nominal'' [] (Some n) []]) @
        (case val of None \<Rightarrow> [] | Some v \<Rightarrow> [Element ''Value'' [] (Some v) []]))"

text \<open>
  A daily table dated 30.12.2023: the dollar, a currency quoted per ten units, a record
  whose value is not a number, and a record without nominal and value.
\<close>

definition sample_daily :: element where
  "sample_daily =
     Element ''ValCurs'' [(''Date'', ''30.12.2023'')] None
       [sample_valute ''R01235'' ''usd'' (Some ''1'') (Some ''92,3405''),
        sample_valute ''R01375'' ''CNY'' (Some ''10'') (Some ''126,5''),
        sample_valute ''R01589'' ''XDR'' (Some ''1'') (Some ''n/a''),
        sample_valute ''R09999'' ''ZZZ'' None None]"

text \<open>The same table with a nominal that is not an integer literal.\<close>

definition bad_nominal_daily :: element where
  "bad_nominal_daily =
     Element ''ValCurs'' [(''Date'', ''30.12.2023'')] None
       [sample_valute ''R01235'' ''USD'' (Some ''1'') (Some ''92,3405''),
        sample_valute ''R01375'' ''CNY'' (Some ''abc'') (Some ''126,5'')]"



text \<open>An environment whose clock advances ten minutes at every reading.\<close>

definition sample_env :: "(nat \<Rightarrow> string \<Rightarrow> params \<Rightarrow> http_outcome) \<Rightarrow> env" where
  "sample_env h = \<lparr>time_time = (\<lambda>k. 600 * of_nat k), http_get = h\<rparr>"

definition daily_upstream :: "element \<Rightarrow> nat \<Rightarrow> string \<Rightarrow> params \<Rightarrow> http_outcome" where
  "daily_upstream doc k url ps = HttpResponse 200 [] (Some doc)"

text \<open>An upstream that serves the sample table once and is unavailable afterwards.\<close>

definition flaky_upstream :: "nat \<Rightarrow> string \<Rightarrow> params \<Rightarrow> http_outcome" where
  "flaky_upstream k url ps =
     (if k = 0 then HttpResponse 200 [] (Some sample_daily)
      else HttpResponse 503 ''Service Unavailable'' None)"

definition empty_state :: state where
  "empty_state = \<lparr>cache = Map.empty, upstream_calls = [], clock_reads = 0\<rparr>"

text \<open>The rate map of the sample table.\<close>

definition sample_rates_map :: "(string \<times> rate_info) list" where
  "sample_rates_map =
     [(''USD'', \<lparr>info_rub_per_unit = Finite (923405 / 10000), info_name = ''usd'',
                info_id = Some ''R01235''\<rparr>),
      (''CNY'', \<lparr>info_rub_per_unit = Finite (1265 / 100), info_name = ''CNY'',
                info_id = Some ''R01375''\<rparr>),
      (''ZZZ'', \<lparr>info_rub_per_unit = Finite 0, info_name = ''ZZZ'',
                info_id = Some ''R09999''\<rparr>),
      (''RUB'', \<lparr>info_rub_per_unit = Finite 1, info_name = RUB_NAME,
                info_id = Some ''RUB''\<rparr>)]"

section \<open>Vocabulary of the properties\<close>

text \<open>The time that the next reading of the clock gives, and the state after that reading.\<close>

definition now_of :: "env \<Rightarrow> state \<Rightarrow> rat" where
  "now_of env st = time_time env (clock_reads st)"

definition tick :: "state \<Rightarrow> state" where
  "tick st = st\<lparr>clock_reads := Suc (clock_reads st)\<rparr>"

text \<open>The parameters of the daily request for a translated date.\<close>

definition daily_params :: "string option \<Rightarrow> params" where
  "daily_params c = (case c of None \<Rightarrow> [] | Some x \<Rightarrow> if x = [] then [] else [(''date_req'', Some x)])"

text \<open>
  The state after a call has read the clock and sent the daily request with the
  parameters \<open>ps\<close>: the cache is the one before the call.
\<close>

definition after_request :: "state \<Rightarrow> params \<Rightarrow> state" where
  "after_request st ps = (tick st)\<lparr>upstream_calls := upstream_calls st @ [(CBR_DAILY_XML, ps)]\<rparr>"

text \<open>
  An entry \<open>e\<close> of \<open>rates\<close> under the code \<open>c\<close> comes from the listed item \<open>it\<close>: the item
  has that code and that nominal, it has a value, and the entry's \<open>rub_per_unit\<close> is the
  value divided by the nominal.
\<close>

definition entry_from_item :: "item \<Rightarrow> string \<Rightarrow> rate \<Rightarrow> bool" where
  "entry_from_item it c e =
     (item_char_code it = c \<and> item_nominal it = rate_nominal e \<and>
      (\<exists>v. item_value it = Some v \<and> fdiv_int v (rate_nominal e) = Inr (rate_rub_per_unit e)))"

text \<open>
  The invariant of one entry: a positive nominal, and either the synthetic rouble entry
  under \<open>RUB\<close> or an entry that comes from a listed item.
\<close>

definition rate_ok :: "item list \<Rightarrow> string \<Rightarrow> rate \<Rightarrow> bool" where
  "rate_ok items c e =
     (rate_nominal e > 0 \<and>
      ((c = ''RUB'' \<and> e = RUB_RATE) \<or> list_ex (\<lambda>it. entry_from_item it c e) items))"

text \<open>
  The invariant of a payload: its \<open>rates_map\<close> is the projection of a dictionary \<open>rates\<close>
  that has the synthetic entry under \<open>RUB\<close> and whose entries all satisfy \<open>rate_ok\<close> over
  the payload's \<open>items\<close>.
\<close>

definition snapshot_ok :: "snapshot \<Rightarrow> bool" where
  "snapshot_ok d =
     (\<exists>rates. data_rates_map d = map (\<lambda>(k, v). (k, rate_to_info v)) rates \<and>
        map_of rates ''RUB'' = Some RUB_RATE \<and>
        (\<forall>c e. map_of rates c = Some e \<longrightarrow> rate_ok (data_items d) c e))"

definition cache_ok :: "state \<Rightarrow> bool" where
  "cache_ok st = (\<forall>k ts x. cache st k = Some (ts, x) \<longrightarrow> snapshot_ok x)"

text \<open>The upper-cased code of a record of the daily table, as the loop computes it.\<close>

definition valute_code :: "element \<Rightarrow> string" where
  "valute_code v = upper (or_default (findtext ''CharCode'' v) [])"

text \<open>
  The flat series of the rouble over the day numbers \<open>lo .. hi\<close>: one point for each, in
  ascending order, dated by \<open>fromordinal\<close> and quoted at 1.0.
\<close>

definition rub_series :: "nat \<Rightarrow> nat \<Rightarrow> history_point list" where
  "rub_series lo hi =
     map (\<lambda>k. \<lparr>point_date = isoformat (ord2ymd k), point_rub_per_unit = Finite 1\<rparr>) [lo ..< Suc hi]"

text \<open>The part of \<open>_ord2ymd\<close> that turns the day of the year (from 0) into month and day.\<close>

definition month_day :: "bool \<Rightarrow> nat \<Rightarrow> nat \<times> nat" where
  "month_day leapyear n =
     (let m = (n + 50) div 32;
          preceding = DAYS_BEFORE_MONTH ! m + (if m > 2 \<and> leapyear then 1 else 0)
      in if preceding > n
         then (let m' = m - 1;
                   preceding' = preceding
                     - (DAYS_IN_MONTH ! m' + (if m' = 2 \<and> leapyear then 1 else 0))
               in (m', n - preceding' + 1))
         else (m, n - preceding + 1))"

section \<open>Running the model on the samples\<close>

lemmas parse_defs =
  float_of_string_def int_of_string_def strip_def is_space_def take_sign_def decimal_def
  digitpart_def is_digit_def exponent_def digits_val_def digit_val_def pow10_def

lemmas strptime_defs =
  strptime_Ymd_def strptime_dmY_def re_Y_def re_m_def re_d_def re_lit_def finish_strptime_def
  is_digit_def digits_val_def digit_val_def valid_date_def days_in_month_def is_leap_def

lemma element_sel [simp]:
  "attrib_get k (Element t a x cs) = map_of a k"
  "findall t' (Element t a x cs) = filter (\<lambda>c. tag c = t') cs"
  by (simp_all add: attrib_get_def findall_def)

lemma sample_valute_sel [simp]:
  "tag (sample_valute vid code nom val) = ''Valute''"
  "findtext ''CharCode'' (sample_valute vid code nom val) = Some code"
  "findtext ''Name'' (sample_valute vid code nom val) = Some code"
  "findtext ''NumCode'' (sample_valute vid code nom val) = Some ''000''"
  "findtext ''Nominal'' (sample_valute vid code nom val) = nom"
  "findtext ''Value'' (sample_valute vid code nom val) = val"
  "attrib_get ''ID'' (sample_valute vid code nom val) = Some vid"
  by (simp_all add: sample_valute_def findtext_def split: option.splits)

lemma parse_samples:
  "int_of_string ''1'' = Some 1"
  "int_of_string ''10'' = Some 10"
  "int_of_string ''abc'' = None"
  "float_of_string ''92.3405'' = Some (Finite (923405 / 10000))"
  "float_of_string ''126.5'' = Some (Finite (1265 / 10))"
  "float_of_string ''n/a'' = None"
  "float_of_string ''0'' = Some (Finite 0)"
  by (simp_all add: parse_defs)

lemma upper_samples:
  "upper ''usd'' = ''USD''" "upper ''USD'' = ''USD''" "upper ''CNY'' = ''CNY''"
  "upper ''XDR'' = ''XDR''" "upper ''ZZZ'' = ''ZZZ''" "upper ''RUB'' = ''RUB''"
  "upper ''rub'' = ''RUB''" "upper ''xxx'' = ''XXX''"
  by code_simp+

lemma fdiv_int_small:
  "0 < n \<Longrightarrow> n < 1000 \<Longrightarrow> fdiv_int (Finite a) n = Inr (Finite (a / of_int n))"
  by (simp add: fdiv_int_def float_of_int_def fdiv_def)

lemmas daily_eval =
  daily_data_def daily_rates_def valute_step_def or_default_def replace_char_def
  parse_samples upper_samples fdiv_int_small Let_def RUB_RATE_def rate_to_info_def

text \<open>The snapshot that \<open>fetch_daily\<close> builds from the sample table.\<close>

lemma daily_data_sample:
  "daily_data sample_daily date_iso = Inr
     \<lparr>data_date = Some ''30.12.2023'', data_count = 4,
      data_items =
        [\<lparr>item_id = Some ''R01235'', item_num_code = Some ''000'', item_char_code = ''USD'',
          item_name = ''usd'', item_nominal = 1, item_value = Some (Finite (923405 / 10000))\<rparr>,
         \<lparr>item_id = Some ''R01375'', item_num_code = Some ''000'', item_char_code = ''CNY'',
          item_name = ''CNY'', item_nominal = 10, item_value = Some (Finite (1265 / 10))\<rparr>,
         \<lparr>item_id = Some ''R01589'', item_num_code = Some ''000'', item_char_code = ''XDR'',
          item_name = ''XDR'', item_nominal = 1, item_value = None\<rparr>,
         \<lparr>item_id = Some ''R09999'', item_num_code = Some ''000'', item_char_code = ''ZZZ'',
          item_name = ''ZZZ'', item_nominal = 1, item_value = Some (Finite 0)\<rparr>],
      data_requested_date_iso = date_iso,
      data_rates_map =
        [(''USD'', \<lparr>info_rub_per_unit = Finite (923405 / 10000), info_name = ''usd'',
                   info_id = Some ''R01235''\<rparr>),
         (''CNY'', \<lparr>info_rub_per_unit = Finite (1265 / 100), info_name = ''CNY'',
                   info_id = Some ''R01375''\<rparr>),
         (''ZZZ'', \<lparr>info_rub_per_unit = Finite 0, info_name = ''ZZZ'',
                   info_id = Some ''R09999''\<rparr>),
         (''RUB'', \<lparr>info_rub_per_unit = Finite 1, info_name = RUB_NAME,
                   info_id = Some ''RUB''\<rparr>)]\<rparr>"
  by (simp add: sample_daily_def daily_eval)

lemma daily_data_bad_nominal: "daily_data bad_nominal_daily date_iso = Inl ValueError"
  by (simp add: bad_nominal_daily_def daily_eval)

text \<open>A first call on an empty cache: one clock reading, one request, and the tree decides.\<close>

lemma fetch_daily_cold:
  assumes "date_to_cbr date_iso = Inr c"
  shows "fetch_daily (sample_env (daily_upstream doc)) date_iso empty_state =
     (let ps = (case c of None \<Rightarrow> [] | Some x \<Rightarrow> if x = [] then [] else [(''date_req'', Some x)]);
          st = \<lparr>cache = Map.empty, upstream_calls = [(CBR_DAILY_XML, ps)], clock_reads = 1\<rparr>
      in (case daily_data doc date_iso of
            Inl e \<Rightarrow> (Inl e, st)
          | Inr data \<Rightarrow>
              (Inr (Snapshot data), st\<lparr>cache := [(''daily'', date_iso) \<mapsto> (0, data)]\<rparr>)))"
  using assms
  by (simp add: fetch_daily_def read_clock_def cache_lookup_def requests_get_def sample_env_def
      daily_upstream_def empty_state_def Let_def split: sum.splits)

lemma date_samples:
  "strptime_Ymd ''2024-13-45'' = Inl ValueError"
  "strptime_Ymd ''2024-01-01'' = Inr (Date 2024 1 1)"
  "strptime_Ymd ''2024-01-05'' = Inr (Date 2024 1 5)"
  "strptime_Ymd ''2024-02-01'' = Inr (Date 2024 2 1)"
  "strptime_Ymd ''2023-12-30'' = Inr (Date 2023 12 30)"
  by (simp_all add: strptime_defs)

lemma strftime_samples:
  "strftime_dmY (Date 2024 1 1) = ''01/01/2024''"
  "strftime_dmY (Date 2024 2 1) = ''01/02/2024''"
  "strftime_dmY (Date 2023 12 30) = ''30/12/2023''"
  by code_simp+

lemma date_to_cbr_samples:
  "date_to_cbr None = Inr None"
  "date_to_cbr (Some ''2024-13-45'') = Inl ValueError"
  "date_to_cbr (Some ''2024-01-01'') = Inr (Some ''01/01/2024'')"
  "date_to_cbr (Some ''2024-02-01'') = Inr (Some ''01/02/2024'')"
  "date_to_cbr (Some ''2023-12-30'') = Inr (Some ''30/12/2023'')"
  by (simp_all add: date_to_cbr_def date_samples strftime_samples del: One_nat_def)

section \<open>DateCodec: the conversion to ISO\<close>

text \<open>
  Claim C9, as the specification states it: \<open>to_iso\<close> fails on every malformed input,
  a wrong number of dot-separated segments and non-numeric segments alike. The function
  only counts the segments. Here the three segments are letters, and the result is a
  string built from them.
\<close>

theorem ddmmyyyy_to_iso_accepts_non_numeric:
  "\<not> list_all is_digit ''aa'' \<and> \<not> list_all is_digit ''bb'' \<and> \<not> list_all is_digit ''cccc'' \<and>
   ddmmyyyy_to_iso (Some ''aa.bb.cccc'') = Some ''cccc-bb-aa''"
  by (simp add: ddmmyyyy_to_iso_def is_digit_def)

lemma split_on_no_sep: "c \<notin> set a \<Longrightarrow> split_on c a = [a]"
  by (induction a) auto

lemma split_on_sep: "c \<notin> set a \<Longrightarrow> split_on c (a @ c # r) = a # split_on c r"
  by (induction a) auto

text \<open>
  Claim C9, amended: \<open>to_iso\<close> fails (returns \<open>None\<close>) exactly when the input is absent,
  empty, or does not split at the dots into exactly three segments. A non-empty input
  that splits into the three segments \<open>d\<close>, \<open>m\<close>, \<open>y\<close> gives \<open>y-m-d\<close> built from them as
  they are; so any three dot-free strings joined by dots, numeric or not, are converted.
\<close>

theorem ddmmyyyy_to_iso_spec:
  "((ddmmyyyy_to_iso x = None) =
      (x = None \<or> x = Some [] \<or> (\<exists>s. x = Some s \<and> length (split_on CHR ''.'' s) \<noteq> 3))) \<and>
   (\<forall>s d m y. s \<noteq> [] \<and> split_on CHR ''.'' s = [d, m, y] \<longrightarrow>
      ddmmyyyy_to_iso (Some s) = Some (y @ ''-'' @ m @ ''-'' @ d)) \<and>
   (\<forall>d m y. CHR ''.'' \<notin> set d \<and> CHR ''.'' \<notin> set m \<and> CHR ''.'' \<notin> set y \<longrightarrow>
      ddmmyyyy_to_iso (Some (d @ ''.'' @ m @ ''.'' @ y)) = Some (y @ ''-'' @ m @ ''-'' @ d))"
proof (intro conjI allI impI)
  show "(ddmmyyyy_to_iso x = None) =
      (x = None \<or> x = Some [] \<or> (\<exists>s. x = Some s \<and> length (split_on CHR ''.'' s) \<noteq> 3))"
    by (auto simp: ddmmyyyy_to_iso_def split: option.splits list.splits)
next
  fix s d m y assume "s \<noteq> [] \<and> split_on CHR ''.'' s = [d, m, y]"
  then show "ddmmyyyy_to_iso (Some s) = Some (y @ ''-'' @ m @ ''-'' @ d)"
    by (simp add: ddmmyyyy_to_iso_def)
next
  fix d m y :: string
  assume a: "CHR ''.'' \<notin> set d \<and> CHR ''.'' \<notin> set m \<and> CHR ''.'' \<notin> set y"
  then have "split_on CHR ''.'' (d @ CHR ''.'' # m @ CHR ''.'' # y) = [d, m, y]"
    by (simp add: split_on_sep split_on_no_sep)
  then show "ddmmyyyy_to_iso (Some (d @ ''.'' @ m @ ''.'' @ y)) = Some (y @ ''-'' @ m @ ''-'' @ d)"
    by (simp add: ddmmyyyy_to_iso_def)
qed

text \<open>
  Claim C9, amended, on a date of the feed, on a date with two segments only, and on
  three segments of letters.
\<close>

theorem ddmmyyyy_to_iso_spec_witness:
  "ddmmyyyy_to_iso (Some ''30.12.2023'') = Some ''2023-12-30'' \<and>
   ddmmyyyy_to_iso (Some ''30.12'') = None \<and>
   ddmmyyyy_to_iso (Some ''dd.mm.yyyy'') = Some ''yyyy-mm-dd''"
proof -
  note spec = ddmmyyyy_to_iso_spec
  have 1: "ddmmyyyy_to_iso (Some ''30.12.2023'') = Some ''2023-12-30''"
  proof -
    have "''30.12.2023'' \<noteq> [] \<and> split_on CHR ''.'' ''30.12.2023'' = [''30'', ''12'', ''2023'']"
      by simp
    with spec [of "Some ''30.12.2023''"] have
      "ddmmyyyy_to_iso (Some ''30.12.2023'') = Some (''2023'' @ ''-'' @ ''12'' @ ''-'' @ ''30'')"
      by blast
    then show ?thesis by simp
  qed
  have 2: "ddmmyyyy_to_iso (Some ''30.12'') = None"
  proof -
    have "\<exists>s. Some ''30.12'' = Some s \<and> length (split_on CHR ''.'' s) \<noteq> 3"
      by simp
    with spec [of "Some ''30.12''"] show ?thesis by blast
  qed
  have 3: "ddmmyyyy_to_iso (Some ''dd.mm.yyyy'') = Some ''yyyy-mm-dd''"
  proof -
    have "CHR ''.'' \<notin> set ''dd'' \<and> CHR ''.'' \<notin> set ''mm'' \<and> CHR ''.'' \<notin> set ''yyyy''"
      by simp
    with spec [of None] have
      "ddmmyyyy_to_iso (Some (''dd'' @ ''.'' @ ''mm'' @ ''.'' @ ''yyyy'')) =
         Some (''yyyy'' @ ''-'' @ ''mm'' @ ''-'' @ ''dd'')"
      by blast
    then show ?thesis by simp
  qed
  from 1 2 3 show ?thesis by simp
qed

section \<open>ConversionEngine\<close>

text \<open>
  Claim C2: \<open>convert\<close> answers with the not-found error when the upper-cased source code,
  or else the upper-cased target code, is missing from the rate map. With both present it
  never raises: when the target's \<open>rub_per_unit\<close> is zero, rate and result are null;
  otherwise the rate is the quotient of the two \<open>rub_per_unit\<close> values and the result is
  the amount times the rate. In particular, on a map that has \<open>USD\<close> with a non-zero
  finite \<open>rub_per_unit\<close>, converting 100 from \<open>USD\<close> to \<open>USD\<close> gives rate 1 and result 100.
\<close>

theorem convert_spec:
  "(map_of rm (upper f) = None \<longrightarrow>
      convert rm d f t a = Inr (ErrorDict (CurrencyNotFound (upper f) d) None)) \<and>
   (map_of rm (upper f) \<noteq> None \<and> map_of rm (upper t) = None \<longrightarrow>
      convert rm d f t a = Inr (ErrorDict (CurrencyNotFound (upper t) d) None)) \<and>
   (\<forall>fi ti. map_of rm (upper f) = Some fi \<and> map_of rm (upper t) = Some ti \<longrightarrow>
      (info_rub_per_unit ti = Finite 0 \<longrightarrow>
         convert rm d f t a =
           Inr (Conversion \<lparr>conv_date = d, conv_from = upper f, conv_to = upper t,
                  conv_amount = a, conv_rate = None, conv_result = None\<rparr>)) \<and>
      (info_rub_per_unit ti \<noteq> Finite 0 \<longrightarrow>
         (\<exists>q. fdiv (info_rub_per_unit fi) (info_rub_per_unit ti) = Inr q \<and>
            convert rm d f t a =
              Inr (Conversion \<lparr>conv_date = d, conv_from = upper f, conv_to = upper t,
                     conv_amount = a, conv_rate = Some q, conv_result = Some (fmul a q)\<rparr>)))) \<and>
   (\<forall>i r. map_of rm ''USD'' = Some i \<and> info_rub_per_unit i = Finite r \<and> r \<noteq> 0 \<longrightarrow>
      convert rm d ''USD'' ''USD'' (Finite 100) =
        Inr (Conversion \<lparr>conv_date = d, conv_from = ''USD'', conv_to = ''USD'',
               conv_amount = Finite 100, conv_rate = Some (Finite 1),
               conv_result = Some (Finite 100)\<rparr>))"
  by (auto simp: convert_def Let_def fdiv_def truthy_def upper_samples)

text \<open>
  Claim C2 on the sample rate map: an unknown source, an unknown target, a target quoted
  at zero, a cross rate, and the dollar against itself.
\<close>

theorem convert_spec_witness:
  "convert sample_rates_map None ''xxx'' ''usd'' (Finite 5) =
     Inr (ErrorDict (CurrencyNotFound ''XXX'' None) None) \<and>
   convert sample_rates_map None ''usd'' ''xxx'' (Finite 5) =
     Inr (ErrorDict (CurrencyNotFound ''XXX'' None) None) \<and>
   convert sample_rates_map None ''usd'' ''ZZZ'' (Finite 5) =
     Inr (Conversion \<lparr>conv_date = None, conv_from = ''USD'', conv_to = ''ZZZ'',
            conv_amount = Finite 5, conv_rate = None, conv_result = None\<rparr>) \<and>
   convert sample_rates_map None ''usd'' ''CNY'' (Finite 5) =
     Inr (Conversion \<lparr>conv_date = None, conv_from = ''USD'', conv_to = ''CNY'',
            conv_amount = Finite 5, conv_rate = Some (Finite (923405 / 126500)),
            conv_result = Some (Finite (923405 / 25300))\<rparr>) \<and>
   convert sample_rates_map None ''USD'' ''USD'' (Finite 100) =
     Inr (Conversion \<lparr>conv_date = None, conv_from = ''USD'', conv_to = ''USD'',
            conv_amount = Finite 100, conv_rate = Some (Finite 1),
            conv_result = Some (Finite 100)\<rparr>)"
proof -
  have maps:
    "map_of sample_rates_map ''XXX'' = None"
    "map_of sample_rates_map ''USD'' = Some \<lparr>info_rub_per_unit = Finite (923405 / 10000),
       info_name = ''usd'', info_id = Some ''R01235''\<rparr>"
    "map_of sample_rates_map ''CNY'' = Some \<lparr>info_rub_per_unit = Finite (1265 / 100),
       info_name = ''CNY'', info_id = Some ''R01375''\<rparr>"
    "map_of sample_rates_map ''ZZZ'' = Some \<lparr>info_rub_per_unit = Finite 0,
       info_name = ''ZZZ'', info_id = Some ''R09999''\<rparr>"
    by (simp_all add: sample_rates_map_def)
  have 1: "convert sample_rates_map None ''xxx'' ''usd'' (Finite 5) =
      Inr (ErrorDict (CurrencyNotFound ''XXX'' None) None)"
    using convert_spec [where rm = sample_rates_map and f = "''xxx''" and d = None and t = "''usd''" and a = "Finite 5"]
    by (simp add: maps upper_samples)
  have 2: "convert sample_rates_map None ''usd'' ''xxx'' (Finite 5) =
      Inr (ErrorDict (CurrencyNotFound ''XXX'' None) None)"
    using convert_spec [where rm = sample_rates_map and f = "''usd''" and d = None and t = "''xxx''" and a = "Finite 5"]
    by (simp add: maps upper_samples)
  have 3: "convert sample_rates_map None ''usd'' ''ZZZ'' (Finite 5) =
     Inr (Conversion \<lparr>conv_date = None, conv_from = ''USD'', conv_to = ''ZZZ'',
            conv_amount = Finite 5, conv_rate = None, conv_result = None\<rparr>)"
    using convert_spec [where rm = sample_rates_map and f = "''usd''" and d = None and t = "''ZZZ''" and a = "Finite 5"]
    by (simp add: maps upper_samples)
  have 4: "convert sample_rates_map None ''usd'' ''CNY'' (Finite 5) =
     Inr (Conversion \<lparr>conv_date = None, conv_from = ''USD'', conv_to = ''CNY'',
            conv_amount = Finite 5, conv_rate = Some (Finite (923405 / 126500)),
            conv_result = Some (Finite (923405 / 25300))\<rparr>)"
    using convert_spec [where rm = sample_rates_map and f = "''usd''" and d = None and t = "''CNY''" and a = "Finite 5"]
    by (simp add: maps upper_samples fdiv_def)
  have 5: "convert sample_rates_map None ''USD'' ''USD'' (Finite 100) =
     Inr (Conversion \<lparr>conv_date = None, conv_from = ''USD'', conv_to = ''USD'',
            conv_amount = Finite 100, conv_rate = Some (Finite 1),
            conv_result = Some (Finite 100)\<rparr>)"
  proof -
    have "map_of sample_rates_map ''USD'' = Some \<lparr>info_rub_per_unit = Finite (923405 / 10000),
        info_name = ''usd'', info_id = Some ''R01235''\<rparr> \<and>
      info_rub_per_unit \<lparr>info_rub_per_unit = Finite (923405 / 10000),
        info_name = ''usd'', info_id = Some ''R01235''\<rparr> = Finite (923405 / 10000) \<and>
      (923405 / 10000 :: rat) \<noteq> 0"
      by (simp add: maps)
    with convert_spec [where rm = sample_rates_map and d = None] show ?thesis
      by blast
  qed
  from 1 2 3 4 5 show ?thesis by simp
qed

section \<open>The daily endpoint\<close>

lemma ddmmyyyy_to_iso_nonempty: "ddmmyyyy_to_iso x \<noteq> Some []"
  by (auto simp: ddmmyyyy_to_iso_def split: option.splits list.splits)

lemma fetch_daily_sample:
  assumes "date_to_cbr date_iso = Inr c"
  shows "\<exists>data st. fetch_daily (sample_env (daily_upstream sample_daily)) date_iso empty_state =
           (Inr (Snapshot data), st) \<and>
         data_date data = Some ''30.12.2023'' \<and> data_rates_map data = sample_rates_map"
  by (simp add: fetch_daily_cold [OF assms] daily_data_sample Let_def sample_rates_map_def)

text \<open>
  Claim C7: a daily request for a date \<open>d\<close> whose snapshot was fetched returns that
  snapshot as it is when \<open>strict\<close> is false (the default). With \<open>strict\<close> true it returns
  the date-mismatch error whenever the ISO form of the feed's date differs from \<open>d\<close>, and
  the snapshot when the two agree.
\<close>

theorem cbr_daily_strict:
  assumes "fetch_daily env (Some d) st = (Inr (Snapshot data), st')" and "d \<noteq> []"
  shows "cbr_daily env (Some d) False st = (Inr (Snapshot data), st') \<and>
    (\<forall>f iso. data_date data = Some f \<and> ddmmyyyy_to_iso (Some f) = Some iso \<and> iso \<noteq> d \<longrightarrow>
       cbr_daily env (Some d) True st = (Inr (ErrorDict (DateMismatch d (Some f)) None), st')) \<and>
    (ddmmyyyy_to_iso (data_date data) = Some d \<longrightarrow>
       cbr_daily env (Some d) True st = (Inr (Snapshot data), st'))"
  using assms ddmmyyyy_to_iso_nonempty
  by (auto simp: cbr_daily_def Let_def)

text \<open>
  Claim C7 on the sample table, which is dated 30.12.2023: asked for 2024-01-01, the
  lenient request gets the snapshot and the strict one the mismatch; asked for
  2023-12-30, the strict request gets the snapshot.
\<close>

theorem cbr_daily_strict_witness:
  "(\<exists>data st. cbr_daily (sample_env (daily_upstream sample_daily)) (Some ''2024-01-01'') False
        empty_state = (Inr (Snapshot data), st) \<and> data_date data = Some ''30.12.2023'') \<and>
   fst (cbr_daily (sample_env (daily_upstream sample_daily)) (Some ''2024-01-01'') True
        empty_state) = Inr (ErrorDict (DateMismatch ''2024-01-01'' (Some ''30.12.2023'')) None) \<and>
   (\<exists>data st. cbr_daily (sample_env (daily_upstream sample_daily)) (Some ''2023-12-30'') True
        empty_state = (Inr (Snapshot data), st) \<and> data_date data = Some ''30.12.2023'')"
proof -
  have iso: "ddmmyyyy_to_iso (Some ''30.12.2023'') = Some ''2023-12-30''"
    by (simp add: ddmmyyyy_to_iso_def)
  obtain data st where a:
    "fetch_daily (sample_env (daily_upstream sample_daily)) (Some ''2024-01-01'') empty_state =
       (Inr (Snapshot data), st)" "data_date data = Some ''30.12.2023''"
    using fetch_daily_sample [OF date_to_cbr_samples(3)] by blast
  obtain data' st' where b:
    "fetch_daily (sample_env (daily_upstream sample_daily)) (Some ''2023-12-30'') empty_state =
       (Inr (Snapshot data'), st')" "data_date data' = Some ''30.12.2023''"
    using fetch_daily_sample [OF date_to_cbr_samples(5)] by blast
  from cbr_daily_strict [OF a(1)] a(2) iso
  have 1: "cbr_daily (sample_env (daily_upstream sample_daily)) (Some ''2024-01-01'') False
        empty_state = (Inr (Snapshot data), st)"
    and 2: "cbr_daily (sample_env (daily_upstream sample_daily)) (Some ''2024-01-01'') True
        empty_state = (Inr (ErrorDict (DateMismatch ''2024-01-01'' (Some ''30.12.2023'')) None), st)"
    by simp_all
  from cbr_daily_strict [OF b(1)] b(2) iso
  have 3: "cbr_daily (sample_env (daily_upstream sample_daily)) (Some ''2023-12-30'') True
        empty_state = (Inr (Snapshot data'), st')"
    by simp
  from 1 2 3 a(2) b(2) show ?thesis by simp
qed

section \<open>Invalid dates at the endpoints\<close>

lemma fetch_daily_invalid_date:
  assumes "cache st (''daily'', Some d) = None" and "date_to_cbr (Some d) = Inl e"
  shows "fst (fetch_daily env (Some d) st) = Inl e"
  using assms by (simp add: fetch_daily_def read_clock_def cache_lookup_def Let_def)

text \<open>
  Claim C5 asks for an \<open>{error: message}\<close> response whenever the date parameter is not a
  calendar date. On a fresh process, the daily and the conversion endpoint called with
  the date \<open>2024-13-45\<close> raise \<open>ValueError\<close> out of the handler, whatever the upstream
  would answer, and so does the history endpoint for a known code other than the rouble;
  only the rouble branch of the history endpoint answers with the error dictionary.
\<close>

theorem invalid_date_raises:
  "fst (cbr_daily env (Some ''2024-13-45'') strict empty_state) = Inl ValueError \<and>
   fst (cbr_convert env from_code to_code amount (Some ''2024-13-45'') empty_state) =
     Inl ValueError \<and>
   fst (cbr_history (sample_env (daily_upstream sample_daily)) ''USD'' ''2024-13-45''
          ''2024-01-01'' empty_state) = Inl ValueError \<and>
   fst (cbr_history env ''RUB'' ''2024-13-45'' ''2024-01-01'' empty_state) =
     Inr (ErrorDict BadDates None)"
proof -
  have "fst (fetch_daily env (Some ''2024-13-45'') empty_state) = Inl ValueError"
    by (rule fetch_daily_invalid_date) (simp_all add: empty_state_def date_to_cbr_samples)
  then have 1: "fst (cbr_daily env (Some ''2024-13-45'') strict empty_state) = Inl ValueError"
    and 2: "fst (cbr_convert env from_code to_code amount (Some ''2024-13-45'') empty_state) =
      Inl ValueError"
    by (auto simp: cbr_daily_def cbr_convert_def split: prod.splits sum.splits)
  obtain data st where f:
    "fetch_daily (sample_env (daily_upstream sample_daily)) None empty_state =
       (Inr (Snapshot data), st)" "data_rates_map data = sample_rates_map"
    using fetch_daily_sample [OF date_to_cbr_samples(1)] by blast
  have 3: "fst (cbr_history (sample_env (daily_upstream sample_daily)) ''USD'' ''2024-13-45''
          ''2024-01-01'' empty_state) = Inl ValueError"
    by (simp add: cbr_history_def fetch_history_def get_valute_id_def f upper_samples
        sample_rates_map_def fetch_dynamic_def date_to_cbr_samples)
  have 4: "fst (cbr_history env ''RUB'' ''2024-13-45'' ''2024-01-01'' empty_state) =
     Inr (ErrorDict BadDates None)"
    by (simp add: cbr_history_def fetch_history_def upper_samples date_samples)
  from 1 2 3 4 show ?thesis by simp
qed

section \<open>Parsing the records of the daily table\<close>

text \<open>
  Claim C8 lets an unparseable nominal default to 1. The sample table whose second record
  has the nominal \<open>abc\<close> makes \<open>fetch_daily\<close> raise \<open>ValueError\<close>: no snapshot is built and
  nothing is cached. The rest of the claim holds on the sample table: a missing nominal
  is 1, the value \<open>92,3405\<close> is read as 92.3405, and the record whose value is \<open>n/a\<close> is
  listed in \<open>items\<close> with a null value and has no entry in \<open>rates_map\<close>.
\<close>

theorem unparseable_nominal_raises:
  "fetch_daily (sample_env (daily_upstream bad_nominal_daily)) None empty_state =
     (Inl ValueError,
      \<lparr>cache = Map.empty, upstream_calls = [(CBR_DAILY_XML, [])], clock_reads = 1\<rparr>) \<and>
   (\<exists>data st. fetch_daily (sample_env (daily_upstream sample_daily)) None empty_state =
        (Inr (Snapshot data), st) \<and>
      item_nominal (data_items data ! 3) = 1 \<and>
      item_value (data_items data ! 0) = Some (Finite (923405 / 10000)) \<and>
      item_char_code (data_items data ! 2) = ''XDR'' \<and>
      item_value (data_items data ! 2) = None \<and>
      map_of (data_rates_map data) ''XDR'' = None)"
  by (simp add: fetch_daily_cold [OF date_to_cbr_samples(1)] daily_data_bad_nominal
      daily_data_sample Let_def)

section \<open>SnapshotCache\<close>

lemma fetch_daily_hit:
  assumes "cache st (''daily'', d) = Some (ts, x)" and "now_of env st - ts < TTL_SECONDS"
  shows "fetch_daily env d st = (Inr (Snapshot x), tick st)"
  using assms
  by (simp add: fetch_daily_def read_clock_def cache_lookup_def now_of_def tick_def)

text \<open>Without a fresh entry the call goes upstream, unless the date fails to translate.\<close>

lemma fetch_daily_miss:
  assumes "cache_lookup st (''daily'', d) (now_of env st) = None"
  shows "fetch_daily env d st =
    (case date_to_cbr d of
       Inl e \<Rightarrow> (Inl e, tick st)
     | Inr c \<Rightarrow>
        (let st' = (tick st)\<lparr>upstream_calls := upstream_calls st @ [(CBR_DAILY_XML, daily_params c)]\<rparr>
         in (case http_get env (length (upstream_calls st)) CBR_DAILY_XML (daily_params c) of
               RequestException e \<Rightarrow> (Inr (ErrorDict (NetworkError e) None), st')
             | HttpResponse code txt tr \<Rightarrow>
                 if code \<noteq> 200
                 then (Inr (ErrorDict (CBRReturned code) (Some (take 300 txt))), st')
                 else (case tr of
                         None \<Rightarrow> (Inl ParseError, st')
                       | Some doc \<Rightarrow>
                           (case daily_data doc d of
                              Inl e \<Rightarrow> (Inl e, st')
                            | Inr data \<Rightarrow>
                                (Inr (Snapshot data),
                                 st'\<lparr>cache := (cache st)((''daily'', d) \<mapsto> (now_of env st, data))\<rparr>))))))"
proof -
  have "cache_lookup (tick st) (''daily'', d) (now_of env st) = None"
    using assms by (simp add: cache_lookup_def tick_def)
  then show ?thesis
    by (simp add: fetch_daily_def read_clock_def requests_get_def now_of_def tick_def
        daily_params_def Let_def
        split: sum.splits http_outcome.splits option.splits)
qed

lemma cache_lookup_cases:
  "cache_lookup st k t = None \<or>
   (\<exists>ts x. cache st k = Some (ts, x) \<and> t - ts < TTL_SECONDS \<and> cache_lookup st k t = Some x)"
  by (auto simp: cache_lookup_def split: option.splits)

lemma cache_lookup_expired:
  "cache st k = Some (ts, x) \<Longrightarrow> \<not> t - ts < TTL_SECONDS \<Longrightarrow> cache_lookup st k t = None"
  by (simp add: cache_lookup_def)

text \<open>Only a call that returns a snapshot writes the cache.\<close>

lemma fetch_daily_failure_keeps_cache:
  assumes "fetch_daily env d st = (r, st')" and "\<forall>y. r \<noteq> Inr (Snapshot y)"
  shows "cache st' = cache st"
proof -
  from cache_lookup_cases [of st "(''daily'', d)" "now_of env st"] show ?thesis
  proof
    assume "cache_lookup st (''daily'', d) (now_of env st) = None"
    from fetch_daily_miss [OF this] assms show ?thesis
      by (auto simp: Let_def tick_def split: sum.splits http_outcome.splits option.splits if_splits)
  next
    assume "\<exists>ts x. cache st (''daily'', d) = Some (ts, x) \<and> now_of env st - ts < TTL_SECONDS \<and>
      cache_lookup st (''daily'', d) (now_of env st) = Some x"
    then obtain ts x where "cache st (''daily'', d) = Some (ts, x)"
      "now_of env st - ts < TTL_SECONDS" by blast
    from fetch_daily_hit [OF this] assms show ?thesis by simp
  qed
qed

text \<open>
  Claim C3. Let a call of \<open>fetch_daily\<close> find no fresh entry for its key and return a
  snapshot \<open>x\<close>. Then it has sent exactly one request upstream and stored \<open>x\<close> under the key
  with the time it read. Any later call for the key that finds this entry less than
  \<open>TTL_SECONDS\<close> (900 s) after that time returns \<open>x\<close> and only reads the clock: no request,
  no change of the cache. Any later call that finds the entry at or after the expiry
  sends exactly one new request. Whenever a call for the key finds no fresh entry, the
  answer of the upstream decides its result: a network exception or a status other than
  200 returns the error dictionary of that failure, a body that does not parse or a
  record that raises propagates the exception, and in all these cases the cache is the one
  before the call, an expired entry included; only a parsed table returns its snapshot,
  stored under the key with the time read. And a call that does not return a snapshot
  leaves the cache as it was.
\<close>

theorem fetch_daily_cache:
  assumes "cache_lookup st0 (''daily'', d) (now_of env st0) = None"
    and "fetch_daily env d st0 = (Inr (Snapshot x), st1)"
  shows "TTL_SECONDS = 900 \<and>
    cache st1 = (cache st0)((''daily'', d) \<mapsto> (now_of env st0, x)) \<and>
    length (upstream_calls st1) = Suc (length (upstream_calls st0)) \<and>
    (\<forall>st. cache st (''daily'', d) = Some (now_of env st0, x) \<and>
          now_of env st - now_of env st0 < TTL_SECONDS \<longrightarrow>
          fetch_daily env d st = (Inr (Snapshot x), tick st)) \<and>
    (\<forall>st. cache st (''daily'', d) = Some (now_of env st0, x) \<and>
          \<not> now_of env st - now_of env st0 < TTL_SECONDS \<longrightarrow>
          length (upstream_calls (snd (fetch_daily env d st))) = Suc (length (upstream_calls st))) \<and>
    (\<forall>st r st'. fetch_daily env d st = (r, st') \<and> (\<forall>y. r \<noteq> Inr (Snapshot y)) \<longrightarrow>
          cache st' = cache st) \<and>
    (\<exists>c. date_to_cbr d = Inr c \<and>
       (\<forall>st. cache_lookup st (''daily'', d) (now_of env st) = None \<longrightarrow>
          cache (after_request st (daily_params c)) = cache st \<and>
          (\<forall>e. http_get env (length (upstream_calls st)) CBR_DAILY_XML (daily_params c) =
                 RequestException e \<longrightarrow>
               fetch_daily env d st =
                 (Inr (ErrorDict (NetworkError e) None), after_request st (daily_params c))) \<and>
          (\<forall>code txt tr.
               http_get env (length (upstream_calls st)) CBR_DAILY_XML (daily_params c) =
                 HttpResponse code txt tr \<and> code \<noteq> 200 \<longrightarrow>
               fetch_daily env d st =
                 (Inr (ErrorDict (CBRReturned code) (Some (take 300 txt))),
                  after_request st (daily_params c))) \<and>
          (\<forall>txt. http_get env (length (upstream_calls st)) CBR_DAILY_XML (daily_params c) =
                 HttpResponse 200 txt None \<longrightarrow>
               fetch_daily env d st = (Inl ParseError, after_request st (daily_params c))) \<and>
          (\<forall>txt doc e.
               http_get env (length (upstream_calls st)) CBR_DAILY_XML (daily_params c) =
                 HttpResponse 200 txt (Some doc) \<and> daily_data doc d = Inl e \<longrightarrow>
               fetch_daily env d st = (Inl e, after_request st (daily_params c))) \<and>
          (\<forall>txt doc data.
               http_get env (length (upstream_calls st)) CBR_DAILY_XML (daily_params c) =
                 HttpResponse 200 txt (Some doc) \<and> daily_data doc d = Inr data \<longrightarrow>
               fetch_daily env d st =
                 (Inr (Snapshot data),
                  (after_request st (daily_params c))
                    \<lparr>cache := (cache st)((''daily'', d) \<mapsto> (now_of env st, data))\<rparr>))))"
proof -
  from fetch_daily_miss [OF assms(1)] assms(2)
  obtain c where c: "date_to_cbr d = Inr c"
    by (cases "date_to_cbr d") auto
  from fetch_daily_miss [OF assms(1)] assms(2) c
  have stored: "cache st1 = (cache st0)((''daily'', d) \<mapsto> (now_of env st0, x))"
    and sent: "length (upstream_calls st1) = Suc (length (upstream_calls st0))"
    by (auto simp: Let_def tick_def split: http_outcome.splits option.splits if_splits sum.splits)
  have hit: "fetch_daily env d st = (Inr (Snapshot x), tick st)"
    if "cache st (''daily'', d) = Some (now_of env st0, x)"
      and "now_of env st - now_of env st0 < TTL_SECONDS" for st
    using that by (rule fetch_daily_hit)
  have expired: "length (upstream_calls (snd (fetch_daily env d st))) = Suc (length (upstream_calls st))"
    if "cache st (''daily'', d) = Some (now_of env st0, x)"
      and "\<not> now_of env st - now_of env st0 < TTL_SECONDS" for st
    using fetch_daily_miss [OF cache_lookup_expired [OF that]] c
    by (simp add: Let_def tick_def split: http_outcome.splits option.splits sum.splits)
  have ttl: "TTL_SECONDS = 900"
    by (simp add: TTL_SECONDS_def)
  have miss: "cache (after_request st (daily_params c)) = cache st \<and>
      (\<forall>e. http_get env (length (upstream_calls st)) CBR_DAILY_XML (daily_params c) =
             RequestException e \<longrightarrow>
           fetch_daily env d st =
             (Inr (ErrorDict (NetworkError e) None), after_request st (daily_params c))) \<and>
      (\<forall>code txt tr.
           http_get env (length (upstream_calls st)) CBR_DAILY_XML (daily_params c) =
             HttpResponse code txt tr \<and> code \<noteq> 200 \<longrightarrow>
           fetch_daily env d st =
             (Inr (ErrorDict (CBRReturned code) (Some (take 300 txt))),
              after_request st (daily_params c))) \<and>
      (\<forall>txt. http_get env (length (upstream_calls st)) CBR_DAILY_XML (daily_params c) =
             HttpResponse 200 txt None \<longrightarrow>
           fetch_daily env d st = (Inl ParseError, after_request st (daily_params c))) \<and>
      (\<forall>txt doc e.
           http_get env (length (upstream_calls st)) CBR_DAILY_XML (daily_params c) =
             HttpResponse 200 txt (Some doc) \<and> daily_data doc d = Inl e \<longrightarrow>
           fetch_daily env d st = (Inl e, after_request st (daily_params c))) \<and>
      (\<forall>txt doc data.
           http_get env (length (upstream_calls st)) CBR_DAILY_XML (daily_params c) =
             HttpResponse 200 txt (Some doc) \<and> daily_data doc d = Inr data \<longrightarrow>
           fetch_daily env d st =
             (Inr (Snapshot data),
              (after_request st (daily_params c))
                \<lparr>cache := (cache st)((''daily'', d) \<mapsto> (now_of env st, data))\<rparr>))"
    if "cache_lookup st (''daily'', d) (now_of env st) = None" for st
    by (simp add: fetch_daily_miss [OF that] c after_request_def tick_def Let_def)
  from ttl stored sent hit expired fetch_daily_failure_keeps_cache c miss show ?thesis
    by (intro conjI exI [of _ c] allI impI) blast+
qed

text \<open>
  Claim C3 on an upstream that serves the sample table once and then answers 503, with
  a clock that reads 0, 600 and 1200 seconds: the first call on the empty cache sends one
  request and stores the snapshot; the second, 600 s later, returns the same snapshot
  and sends none; the third, 1200 s after the first, sends a second request, returns the
  error of the upstream, and leaves the stored entry in place.
\<close>

theorem fetch_daily_cache_witness:
  "\<exists>x st1 st3.
     fetch_daily (sample_env flaky_upstream) None empty_state = (Inr (Snapshot x), st1) \<and>
     length (upstream_calls st1) = 1 \<and>
     fetch_daily (sample_env flaky_upstream) None st1 = (Inr (Snapshot x), tick st1) \<and>
     length (upstream_calls (tick st1)) = 1 \<and>
     fetch_daily (sample_env flaky_upstream) None (tick st1) =
       (Inr (ErrorDict (CBRReturned 503) (Some ''Service Unavailable'')), st3) \<and>
     length (upstream_calls st3) = 2 \<and>
     cache st3 (''daily'', None) = Some (0, x)"
proof -
  let ?E = "sample_env flaky_upstream"
  obtain x where x: "daily_data sample_daily None = Inr x"
    using daily_data_sample by blast
  define st1 where "st1 =
    \<lparr>cache = [(''daily'', None) \<mapsto> (0, x)], upstream_calls = [(CBR_DAILY_XML, [])],
     clock_reads = 1\<rparr>"
  define st3 where "st3 = after_request (tick st1) []"
  have t0: "now_of ?E empty_state = 0" and t1: "now_of ?E st1 = 600"
    and t2: "now_of ?E (tick st1) = 1200"
    by (simp_all add: now_of_def sample_env_def empty_state_def st1_def tick_def)
  have miss: "cache_lookup empty_state (''daily'', None) (now_of ?E empty_state) = None"
    by (simp add: cache_lookup_def empty_state_def)
  have first: "fetch_daily ?E None empty_state = (Inr (Snapshot x), st1)"
    by (subst fetch_daily_miss [OF miss])
      (simp add: date_to_cbr_samples daily_params_def sample_env_def flaky_upstream_def x
        st1_def tick_def empty_state_def now_of_def Let_def)
  have entry: "cache st1 (''daily'', None) = Some (0, x)"
    "cache (tick st1) (''daily'', None) = Some (0, x)"
    by (simp_all add: st1_def tick_def)
  have late: "\<not> now_of ?E (tick st1) - 0 < TTL_SECONDS"
    by (simp add: t2 TTL_SECONDS_def)
  have stale: "cache_lookup (tick st1) (''daily'', None) (now_of ?E (tick st1)) = None"
    by (rule cache_lookup_expired [OF entry(2) late])
  have down: "http_get ?E (length (upstream_calls (tick st1))) CBR_DAILY_XML (daily_params None) =
      HttpResponse 503 ''Service Unavailable'' None \<and> (503::int) \<noteq> 200"
    by (simp add: sample_env_def flaky_upstream_def st1_def tick_def)
  note c3 = fetch_daily_cache [OF miss first, unfolded t0 date_to_cbr_samples(1)]
  from c3 have hit: "\<forall>st. cache st (''daily'', None) = Some (0, x) \<and>
      now_of ?E st - 0 < TTL_SECONDS \<longrightarrow> fetch_daily ?E None st = (Inr (Snapshot x), tick st)"
    by blast
  from c3 have len1: "length (upstream_calls st1) = Suc (length (upstream_calls empty_state))"
    by blast
  from c3 have fail: "\<forall>st. cache_lookup st (''daily'', None) (now_of ?E st) = None \<longrightarrow>
      cache (after_request st (daily_params None)) = cache st \<and>
      (\<forall>code txt tr.
           http_get ?E (length (upstream_calls st)) CBR_DAILY_XML (daily_params None) =
             HttpResponse code txt tr \<and> code \<noteq> 200 \<longrightarrow>
           fetch_daily ?E None st =
             (Inr (ErrorDict (CBRReturned code) (Some (take 300 txt))),
              after_request st (daily_params None)))"
    by (elim conjE exE) (simp only: sum.inject, blast)
  have second: "fetch_daily ?E None st1 = (Inr (Snapshot x), tick st1)"
    using hit entry(1) t1 by (simp add: TTL_SECONDS_def)
  from fail stale down
  have third: "fetch_daily ?E None (tick st1) =
      (Inr (ErrorDict (CBRReturned 503) (Some (take 300 ''Service Unavailable''))),
       after_request (tick st1) (daily_params None))"
    and kept: "cache (after_request (tick st1) (daily_params None)) = cache (tick st1)"
    by blast+
  have len: "length (upstream_calls st1) = 1" "length (upstream_calls (tick st1)) = 1"
    using len1 by (simp_all add: empty_state_def tick_def)
  have len3: "length (upstream_calls st3) = 2"
    using len(2) by (simp add: st3_def after_request_def tick_def)
  from first second third kept len len3 entry(2) show ?thesis
    by (auto simp: st3_def daily_params_def)
qed

section \<open>The rate map of a snapshot\<close>

text \<open>What a round of the loop that does not raise has done.\<close>

lemma valute_step_Inr:
  assumes "valute_step v (items, rates) = Inr (items', rates')"
  shows "\<exists>n. int_of_string (or_default (findtext ''Nominal'' v) ''1'') = Some n \<and>
     (let val = float_of_string
                  (replace_char CHR '','' CHR ''.'' (or_default (findtext ''Value'' v) ''0''));
          name = or_default (findtext ''Name'' v) [];
          vid = attrib_get ''ID'' v
      in items' = items @ [\<lparr>item_id = vid, item_num_code = findtext ''NumCode'' v,
                    item_char_code = valute_code v, item_name = name, item_nominal = n,
                    item_value = val\<rparr>] \<and>
         (case val of
            None \<Rightarrow> rates' = rates
          | Some x \<Rightarrow>
              if valute_code v \<noteq> [] \<and> n > 0
              then \<exists>q. fdiv_int x n = Inr q \<and>
                     rates' = AList.update (valute_code v)
                       \<lparr>rate_rub_per_unit = q, rate_nominal = n, rate_name = name, rate_id = vid\<rparr>
                       rates
              else rates' = rates))"
  using assms
  by (auto simp: valute_step_def valute_code_def Let_def split: option.splits if_splits sum.splits)

lemma rate_ok_mono: "rate_ok items c e \<Longrightarrow> rate_ok (items @ new) c e"
  by (auto simp: rate_ok_def list_ex_iff)

lemma valute_step_ok:
  assumes "valute_step v (items, rates) = Inr (items', rates')"
    and "\<forall>c e. map_of rates c = Some e \<longrightarrow> rate_ok items c e"
  shows "\<forall>c e. map_of rates' c = Some e \<longrightarrow> rate_ok items' c e"
proof -
  from valute_step_Inr [OF assms(1)] obtain n where
    n: "int_of_string (or_default (findtext ''Nominal'' v) ''1'') = Some n" by blast
  let ?val = "float_of_string
      (replace_char CHR '','' CHR ''.'' (or_default (findtext ''Value'' v) ''0''))"
  let ?it = "\<lparr>item_id = attrib_get ''ID'' v, item_num_code = findtext ''NumCode'' v,
      item_char_code = valute_code v, item_name = or_default (findtext ''Name'' v) [],
      item_nominal = n, item_value = ?val\<rparr>"
  from valute_step_Inr [OF assms(1)] n have items': "items' = items @ [?it]"
    by (simp add: Let_def)
  show ?thesis
  proof (intro allI impI)
    fix c e assume ce: "map_of rates' c = Some e"
    show "rate_ok items' c e"
    proof (cases "map_of rates c = Some e")
      case True
      with assms(2) show ?thesis by (simp add: items' rate_ok_mono)
    next
      case False
      from valute_step_Inr [OF assms(1)] n ce False
      obtain x q where "?val = Some x" "valute_code v \<noteq> []" "n > 0" "fdiv_int x n = Inr q"
        and r: "rates' = AList.update (valute_code v)
           \<lparr>rate_rub_per_unit = q, rate_nominal = n,
            rate_name = or_default (findtext ''Name'' v) [], rate_id = attrib_get ''ID'' v\<rparr> rates"
        by (auto simp: Let_def split: option.splits if_splits)
      moreover from ce False r have "c = valute_code v" and
        "e = \<lparr>rate_rub_per_unit = q, rate_nominal = n,
            rate_name = or_default (findtext ''Name'' v) [], rate_id = attrib_get ''ID'' v\<rparr>"
        by (auto simp: update_Some_unfold)
      ultimately show ?thesis
        by (auto simp: rate_ok_def items' entry_from_item_def)
    qed
  qed
qed

lemma valute_loop_ok:
  assumes "valute_loop vs (items, rates) = Inr (items', rates')"
    and "\<forall>c e. map_of rates c = Some e \<longrightarrow> rate_ok items c e"
  shows "\<forall>c e. map_of rates' c = Some e \<longrightarrow> rate_ok items' c e"
  using assms
proof (induction vs arbitrary: items rates)
  case Nil
  then show ?case by simp
next
  case (Cons v vs)
  from Cons.prems(1) obtain i1 r1 where
    step: "valute_step v (items, rates) = Inr (i1, r1)"
    and rest: "valute_loop vs (i1, r1) = Inr (items', rates')"
    by (auto split: sum.splits)
  from Cons.IH [OF rest valute_step_ok [OF step Cons.prems(2)]] show ?case .
qed

text \<open>The dictionary \<open>rates\<close> of a parsed table.\<close>

lemma daily_rates_ok:
  assumes "daily_rates doc = Inr (items, rates)"
  shows "map_of rates ''RUB'' = Some RUB_RATE \<and>
    (\<forall>c e. map_of rates c = Some e \<longrightarrow> rate_ok items c e)"
proof -
  from assms obtain r0 where
    loop: "valute_loop (findall ''Valute'' doc) ([], []) = Inr (items, r0)"
    and rates: "rates = AList.update ''RUB'' RUB_RATE r0"
    by (auto simp: daily_rates_def split: sum.splits)
  have "\<forall>c e. map_of r0 c = Some e \<longrightarrow> rate_ok items c e"
    by (rule valute_loop_ok [OF loop]) simp
  then show ?thesis
    by (auto simp: rates update_Some_unfold rate_ok_def RUB_RATE_def)
qed

lemma daily_data_ok:
  assumes "daily_data doc date_iso = Inr data"
  shows "snapshot_ok data"
proof -
  from assms obtain items rates where
    r: "daily_rates doc = Inr (items, rates)"
    and d: "data_items data = items"
      "data_rates_map data = map (\<lambda>(k, v). (k, rate_to_info v)) rates"
    by (auto simp: daily_data_def Let_def split: sum.splits)
  from daily_rates_ok [OF r] d show ?thesis
    unfolding snapshot_ok_def by blast
qed

lemma snapshot_ok_RUB:
  assumes "snapshot_ok data"
  shows "\<exists>info. map_of (data_rates_map data) ''RUB'' = Some info \<and>
    info_rub_per_unit info = Finite 1"
proof -
  from assms obtain rates where
    "data_rates_map data = map (\<lambda>(k, v). (k, rate_to_info v)) rates"
    "map_of rates ''RUB'' = Some RUB_RATE"
    unfolding snapshot_ok_def by blast
  then show ?thesis
    by (simp add: map_of_map rate_to_info_def RUB_RATE_def)
qed

text \<open>
  Claim C1. Over a cache whose payloads satisfy the invariant (the empty cache of a fresh
  process does), every snapshot that \<open>fetch_daily\<close> returns, fetched or served from the
  cache, satisfies it, and so does the cache afterwards: the dictionary \<open>rates\<close> behind
  its \<open>rates_map\<close> has under \<open>RUB\<close> the synthetic entry, whose \<open>rub_per_unit\<close> is 1.0 and
  whose nominal is 1, and every entry of \<open>rates\<close> has a positive nominal and a
  \<open>rub_per_unit\<close> that is the value of a listed item of that code divided by that nominal
  (for the rouble: 1.0 divided by 1).
\<close>

theorem fetch_daily_rates_invariant:
  assumes "cache_ok st" and "fetch_daily env date_iso st = (Inr (Snapshot data), st')"
  shows "snapshot_ok data \<and> cache_ok st' \<and>
    (\<exists>info. map_of (data_rates_map data) ''RUB'' = Some info \<and>
       info_rub_per_unit info = Finite 1) \<and>
    rate_rub_per_unit RUB_RATE = Finite 1 \<and> rate_nominal RUB_RATE = 1 \<and>
    fdiv_int (Finite 1) (rate_nominal RUB_RATE) = Inr (rate_rub_per_unit RUB_RATE)"
proof -
  have ok: "snapshot_ok data \<and> cache_ok st'"
    using cache_lookup_cases [of st "(''daily'', date_iso)" "now_of env st"]
  proof
    assume miss: "cache_lookup st (''daily'', date_iso) (now_of env st) = None"
    from fetch_daily_miss [OF miss] assms(2)
    obtain doc where "daily_data doc date_iso = Inr data"
      and st': "cache st' = (cache st)((''daily'', date_iso) \<mapsto> (now_of env st, data))"
      by (auto simp: Let_def tick_def
          split: sum.splits http_outcome.splits option.splits if_splits)
    from daily_data_ok [OF this(1)] have "snapshot_ok data" .
    with assms(1) st' show ?thesis
      by (auto simp: cache_ok_def)
  next
    assume "\<exists>ts x. cache st (''daily'', date_iso) = Some (ts, x) \<and>
      now_of env st - ts < TTL_SECONDS \<and>
      cache_lookup st (''daily'', date_iso) (now_of env st) = Some x"
    then obtain ts x where e: "cache st (''daily'', date_iso) = Some (ts, x)"
      "now_of env st - ts < TTL_SECONDS" by blast
    from fetch_daily_hit [OF e] assms(2) have "data = x" "st' = tick st" by simp_all
    with assms(1) e(1) show ?thesis
      by (auto simp: cache_ok_def tick_def)
  qed
  moreover have "fdiv_int (Finite 1) (rate_nominal RUB_RATE) = Inr (rate_rub_per_unit RUB_RATE)"
    by (simp add: RUB_RATE_def fdiv_int_small)
  ultimately show ?thesis
    using snapshot_ok_RUB by (simp add: RUB_RATE_def)
qed
text \<open>
  Claim C1 on the sample table, fetched by a fresh process: the snapshot and the cache
  satisfy the invariant, \<open>RUB\<close> is quoted at 1, and the currency quoted at 126.5 per ten
  units is in the map at 12.65.
\<close>

theorem fetch_daily_rates_invariant_witness:
  "cache_ok empty_state \<and>
   (\<exists>data st. fetch_daily (sample_env (daily_upstream sample_daily)) None empty_state =
        (Inr (Snapshot data), st) \<and>
      snapshot_ok data \<and> cache_ok st \<and>
      map_of (data_rates_map data) ''RUB'' =
        Some \<lparr>info_rub_per_unit = Finite 1, info_name = RUB_NAME, info_id = Some ''RUB''\<rparr> \<and>
      map_of (data_rates_map data) ''CNY'' =
        Some \<lparr>info_rub_per_unit = Finite (1265 / 100), info_name = ''CNY'',
              info_id = Some ''R01375''\<rparr>)"
proof -
  have empty: "cache_ok empty_state"
    by (simp add: cache_ok_def empty_state_def)
  obtain data st where
    f: "fetch_daily (sample_env (daily_upstream sample_daily)) None empty_state =
      (Inr (Snapshot data), st)"
    and m: "data_rates_map data = sample_rates_map"
    using fetch_daily_sample [OF date_to_cbr_samples(1)] by blast
  from fetch_daily_rates_invariant [OF empty f]
  have "snapshot_ok data" "cache_ok st" by simp_all
  with empty f m show ?thesis
    by (auto simp: sample_rates_map_def)
qed

section \<open>A record without a value\<close>

lemma valute_loop_append:
  "valute_loop (xs @ ys) acc =
     (case valute_loop xs acc of Inl e \<Rightarrow> Inl e | Inr acc' \<Rightarrow> valute_loop ys acc')"
  by (induction xs arbitrary: acc) (auto split: sum.splits)

text \<open>A record of another code leaves the entry of the code \<open>c\<close> alone.\<close>

lemma valute_step_other:
  assumes "valute_step w (items, rates) = Inr (items', rates')" and "valute_code w \<noteq> c"
  shows "map_of rates' c = map_of rates c"
  using valute_step_Inr [OF assms(1)] assms(2)
  by (auto simp: Let_def update_conv' split: option.splits if_splits)

lemma valute_loop_other:
  assumes "valute_loop ws (items, rates) = Inr (items', rates')"
    and "\<forall>w\<in>set ws. valute_code w \<noteq> c"
  shows "map_of rates' c = map_of rates c"
  using assms
proof (induction ws arbitrary: items rates)
  case Nil
  then show ?case by simp
next
  case (Cons w ws)
  from Cons.prems(1) obtain i1 r1 where
    step: "valute_step w (items, rates) = Inr (i1, r1)"
    and rest: "valute_loop ws (i1, r1) = Inr (items', rates')"
    by (auto split: sum.splits)
  from Cons.prems(2) have "valute_code w \<noteq> c" and "\<forall>w\<in>set ws. valute_code w \<noteq> c"
    by simp_all
  with Cons.IH [OF rest] valute_step_other [OF step] show ?case by simp
qed

lemma valute_loop_items:
  assumes "valute_loop ws (items, rates) = Inr (items', rates')"
  shows "set items \<subseteq> set items'"
  using assms
proof (induction ws arbitrary: items rates)
  case Nil
  then show ?case by simp
next
  case (Cons w ws)
  from Cons.prems obtain i1 r1 where
    step: "valute_step w (items, rates) = Inr (i1, r1)"
    and rest: "valute_loop ws (i1, r1) = Inr (items', rates')"
    by (auto split: sum.splits)
  from valute_step_Inr [OF step] have "set items \<subseteq> set i1"
    by (auto simp: Let_def)
  with Cons.IH [OF rest] show ?case by blast
qed

text \<open>
  Claim C10. Let a record \<open>v\<close> of a successfully parsed daily table have no \<open>Value\<close> text
  (no such child, or an empty one), a non-empty code \<open>c\<close> other than \<open>RUB\<close> that no later
  record repeats, and a positive nominal. Then the record is listed with the value 0.0,
  \<open>rates_map\<close> has \<open>c\<close> with \<open>rub_per_unit\<close> 0.0, and a conversion from any code of the map
  to \<open>c\<close> returns the conversion with rate and result null, not the not-found error.
\<close>

theorem missing_value_is_zero_rate:
  assumes "daily_data doc date_iso = Inr data"
    and "findall ''Valute'' doc = pre @ v # post"
    and "findtext ''Value'' v = None \<or> findtext ''Value'' v = Some []"
    and "valute_code v \<noteq> []" and "valute_code v \<noteq> ''RUB''"
    and "int_of_string (or_default (findtext ''Nominal'' v) ''1'') = Some n" and "n > 0"
    and "\<forall>w\<in>set post. valute_code w \<noteq> valute_code v"
  shows "list_ex (\<lambda>it. item_char_code it = valute_code v \<and> item_value it = Some (Finite 0))
       (data_items data) \<and>
    (\<exists>info. map_of (data_rates_map data) (valute_code v) = Some info \<and>
       info_rub_per_unit info = Finite 0) \<and>
    (\<forall>f t a. map_of (data_rates_map data) (upper f) \<noteq> None \<and> upper t = valute_code v \<longrightarrow>
       convert (data_rates_map data) (data_date data) f t a =
         Inr (Conversion \<lparr>conv_date = data_date data, conv_from = upper f,
                conv_to = valute_code v, conv_amount = a, conv_rate = None,
                conv_result = None\<rparr>))"
proof -
  let ?c = "valute_code v"
  from assms(1) obtain items r0 where
    loop: "valute_loop (findall ''Valute'' doc) ([], []) = Inr (items, r0)"
    and it: "data_items data = items"
    and rm: "data_rates_map data =
      map (\<lambda>(k, v). (k, rate_to_info v)) (AList.update ''RUB'' RUB_RATE r0)"
    by (auto simp: daily_data_def daily_rates_def Let_def split: sum.splits)
  from loop obtain i1 r1 i2 r2 where
    pre: "valute_loop pre ([], []) = Inr (i1, r1)"
    and step: "valute_step v (i1, r1) = Inr (i2, r2)"
    and post: "valute_loop post (i2, r2) = Inr (items, r0)"
    by (auto simp: assms(2) valute_loop_append split: sum.splits)
  have zero: "float_of_string
      (replace_char CHR '','' CHR ''.'' (or_default (findtext ''Value'' v) ''0'')) =
      Some (Finite 0)"
    using assms(3) by (auto simp: or_default_def replace_char_def parse_samples)
  from valute_step_Inr [OF step] assms(4,6,7) zero
  obtain q where q: "fdiv_int (Finite 0) n = Inr q"
    and r2': "r2 = AList.update ?c
        \<lparr>rate_rub_per_unit = q, rate_nominal = n,
         rate_name = or_default (findtext ''Name'' v) [], rate_id = attrib_get ''ID'' v\<rparr> r1"
    and i2: "list_ex (\<lambda>it. item_char_code it = ?c \<and> item_value it = Some (Finite 0)) i2"
    by (auto simp: Let_def)
  define e where "e = \<lparr>rate_rub_per_unit = q, rate_nominal = n,
         rate_name = or_default (findtext ''Name'' v) [], rate_id = attrib_get ''ID'' v\<rparr>"
  have e: "rate_rub_per_unit e = q" and r2: "r2 = AList.update ?c e r1"
    by (simp_all add: e_def r2')
  from q have q0: "q = Finite 0"
    by (auto simp: fdiv_int_def float_of_int_def fdiv_def split: if_splits)
  from valute_loop_other [OF post assms(8)] r2
  have "map_of r0 ?c = Some e"
    by (simp add: update_conv')
  with assms(5) have "map_of (AList.update ''RUB'' RUB_RATE r0) ?c = Some e"
    by (simp add: update_conv')
  then have entry: "map_of (data_rates_map data) ?c = Some (rate_to_info e)"
    by (simp add: rm map_of_map)
  have rub: "info_rub_per_unit (rate_to_info e) = Finite 0"
    by (simp add: rate_to_info_def e q0)
  have listed: "list_ex (\<lambda>it. item_char_code it = ?c \<and> item_value it = Some (Finite 0))
      (data_items data)"
    using i2 valute_loop_items [OF post] by (auto simp: it list_ex_iff)
  have conv: "convert (data_rates_map data) (data_date data) f t a =
      Inr (Conversion \<lparr>conv_date = data_date data, conv_from = upper f,
             conv_to = ?c, conv_amount = a, conv_rate = None, conv_result = None\<rparr>)"
    if "map_of (data_rates_map data) (upper f) \<noteq> None" and "upper t = ?c" for f t a
    using that entry rub by (auto simp: convert_def Let_def truthy_def)
  from listed entry rub conv show ?thesis by blast
qed
text \<open>
  Claim C10 on the sample table, whose last record \<open>ZZZ\<close> has neither nominal nor value:
  it is listed with the value 0.0, it is in the map at 0.0, and converting dollars to it
  gives a conversion with rate and result null.
\<close>

theorem missing_value_is_zero_rate_witness:
  "\<exists>data. daily_data sample_daily None = Inr data \<and>
     list_ex (\<lambda>it. item_char_code it = ''ZZZ'' \<and> item_value it = Some (Finite 0))
       (data_items data) \<and>
     (\<exists>info. map_of (data_rates_map data) ''ZZZ'' = Some info \<and>
        info_rub_per_unit info = Finite 0) \<and>
     convert (data_rates_map data) (data_date data) ''usd'' ''zzz'' (Finite 5) =
       Inr (Conversion \<lparr>conv_date = Some ''30.12.2023'', conv_from = ''USD'', conv_to = ''ZZZ'',
              conv_amount = Finite 5, conv_rate = None, conv_result = None\<rparr>)"
proof -
  let ?v = "sample_valute ''R09999'' ''ZZZ'' None None"
  obtain data where d: "daily_data sample_daily None = Inr data"
    and m: "data_rates_map data = sample_rates_map" and dt: "data_date data = Some ''30.12.2023''"
    using daily_data_sample [of None] by (simp add: sample_rates_map_def)
  have code: "valute_code ?v = ''ZZZ''"
    by (simp add: valute_code_def or_default_def upper_samples)
  have up: "upper ''zzz'' = ''ZZZ''"
    by code_simp
  have split: "findall ''Valute'' sample_daily =
      [sample_valute ''R01235'' ''usd'' (Some ''1'') (Some ''92,3405''),
       sample_valute ''R01375'' ''CNY'' (Some ''10'') (Some ''126,5''),
       sample_valute ''R01589'' ''XDR'' (Some ''1'') (Some ''n/a'')] @ ?v # []"
    by (simp add: sample_daily_def)
  have nom: "int_of_string (or_default (findtext ''Nominal'' ?v) ''1'') = Some 1"
    by (simp add: or_default_def parse_samples)
  have usd: "map_of (data_rates_map data) (upper ''usd'') \<noteq> None"
    by (simp add: m sample_rates_map_def upper_samples)
  from missing_value_is_zero_rate [OF d split _ _ _ nom]
  have "list_ex (\<lambda>it. item_char_code it = valute_code ?v \<and> item_value it = Some (Finite 0))
       (data_items data) \<and>
    (\<exists>info. map_of (data_rates_map data) (valute_code ?v) = Some info \<and>
       info_rub_per_unit info = Finite 0) \<and>
    (\<forall>f t a. map_of (data_rates_map data) (upper f) \<noteq> None \<and> upper t = valute_code ?v \<longrightarrow>
       convert (data_rates_map data) (data_date data) f t a =
         Inr (Conversion \<lparr>conv_date = data_date data, conv_from = upper f,
                conv_to = valute_code ?v, conv_amount = a, conv_rate = None,
                conv_result = None\<rparr>))"
    by (simp add: code)
  with usd up show ?thesis
    by (auto simp: d code dt upper_samples)
qed

section \<open>The proleptic Gregorian calendar\<close>

lemma month_cases:
  assumes "1 \<le> m" and "m \<le> (12::nat)"
  shows "m \<in> {1, 2, 3, 4, 5, 6, 7, 8, 9, 10, 11, 12}"
proof -
  from assms have "m = 1 \<or> m = 2 \<or> m = 3 \<or> m = 4 \<or> m = 5 \<or> m = 6 \<or> m = 7 \<or> m = 8 \<or>
    m = 9 \<or> m = 10 \<or> m = 11 \<or> m = 12"
    by (presburger)
  then show ?thesis by blast
qed

lemma days_before_year_Suc:
  assumes "1 \<le> y"
  shows "days_before_year (Suc y) = days_before_year y + (if is_leap y then 366 else 365)"
proof -
  obtain p where p: "y = Suc p" using assms by (cases y) auto
  have d4: "Suc p div 4 = p div 4 + (if Suc p mod 4 = 0 then 1 else 0)"
    and d100: "Suc p div 100 = p div 100 + (if Suc p mod 100 = 0 then 1 else 0)"
    and d400: "Suc p div 400 = p div 400 + (if Suc p mod 400 = 0 then 1 else 0)"
    by (simp_all add: div_Suc)
  have le: "p div 100 \<le> p div 4"
    by (rule div_le_mono2) simp_all
  have m1: "Suc p mod 4 = 0" if "Suc p mod 100 = 0"
    using mod_mod_cancel [of 4 100 "Suc p"] that by simp
  have m2: "Suc p mod 100 = 0" if "Suc p mod 400 = 0"
    using mod_mod_cancel [of 100 400 "Suc p"] that by simp
  show ?thesis
    unfolding p days_before_year_def is_leap_def Let_def
    using d4 d100 d400 le m1 m2 by (auto simp: algebra_simps)
qed

lemma days_before_year_mono:
  assumes "1 \<le> y" and "y < y'"
  shows "days_before_year y + (if is_leap y then 366 else 365) \<le> days_before_year y'"
  using assms(2)
proof (induction y')
  case 0
  then show ?case by simp
next
  case (Suc z)
  show ?case
  proof (cases "y = z")
    case True
    with days_before_year_Suc [OF assms(1)] show ?thesis by simp
  next
    case False
    with Suc have "days_before_year y + (if is_leap y then 366 else 365) \<le> days_before_year z"
      and "1 \<le> z" using assms(1) by auto
    with days_before_year_Suc [of z] show ?thesis by (auto)
  qed
qed

text \<open>The day of the year of a valid date lies within the year.\<close>

lemma day_of_year_bounds:
  assumes "valid_date dt"
  shows "1 \<le> days_before_month (year dt) (month dt) + day dt"
    and "days_before_month (year dt) (month dt) + day dt \<le>
      (if is_leap (year dt) then 366 else 365)"
proof -
  from assms have "1 \<le> month dt" "month dt \<le> 12"
    and d: "1 \<le> day dt" "day dt \<le> days_in_month (year dt) (month dt)"
    unfolding valid_date_def by simp_all
  then have m: "month dt \<in> {1, 2, 3, 4, 5, 6, 7, 8, 9, 10, 11, 12}"
    by (intro month_cases)
  from d show "1 \<le> days_before_month (year dt) (month dt) + day dt" by simp
  from m d show "days_before_month (year dt) (month dt) + day dt \<le>
      (if is_leap (year dt) then 366 else 365)"
    by (auto simp: days_before_month_def days_in_month_def DAYS_BEFORE_MONTH_def)
qed

text \<open>Within a year, an earlier month ends before a later month begins.\<close>

lemma days_before_month_Suc:
  assumes "1 \<le> m" and "m < 12"
  shows "days_before_month y (Suc m) = days_before_month y m + days_in_month y m"
proof -
  have "m \<in> {1, 2, 3, 4, 5, 6, 7, 8, 9, 10, 11, 12}"
    by (rule month_cases) (use assms in simp_all)
  with assms(2) show ?thesis
    by (auto simp: days_before_month_def days_in_month_def DAYS_BEFORE_MONTH_def)
qed

lemma days_before_month_mono:
  assumes "1 \<le> m" and "m < m'" and "m' \<le> 12"
  shows "days_before_month y m + days_in_month y m \<le> days_before_month y m'"
  using assms(2,3)
proof (induction m')
  case 0
  then show ?case by simp
next
  case (Suc k)
  show ?case
  proof (cases "m = k")
    case True
    with days_before_month_Suc [OF assms(1), of y] Suc.prems show ?thesis by simp
  next
    case False
    with Suc have le: "days_before_month y m + days_in_month y m \<le> days_before_month y k"
      and k: "1 \<le> k" "k < 12" using assms(1) by auto
    from days_before_month_Suc [OF k, of y] le show ?thesis by simp
  qed
qed

text \<open>\<open>toordinal\<close> is strictly monotone on valid dates.\<close>

lemma toordinal_mono:
  assumes "valid_date a" and "valid_date b" and "date_less a b"
  shows "toordinal a < toordinal b"
proof -
  from assms(3) consider (y) "year a < year b"
    | (m) "year a = year b" "month a < month b"
    | (d) "year a = year b" "month a = month b" "day a < day b"
    unfolding date_less_def by blast
  then show ?thesis
  proof cases
    case y
    from assms(1) have "1 \<le> year a" by (simp add: valid_date_def)
    from days_before_year_mono [OF this y] day_of_year_bounds [OF assms(1)]
      day_of_year_bounds(1) [OF assms(2)]
    show ?thesis by (simp add: toordinal_def)
  next
    case m
    from assms have "1 \<le> month a" "month b \<le> 12" "day a \<le> days_in_month (year a) (month a)"
      "1 \<le> day b" by (simp_all add: valid_date_def)
    with days_before_month_mono [OF this(1) m(2) this(2), of "year a"] m(1)
    show ?thesis by (simp add: toordinal_def)
  next
    case d
    then show ?thesis by (simp add: toordinal_def)
  qed
qed

lemma date_less_total: "\<not> date_less a b \<Longrightarrow> \<not> date_less b a \<Longrightarrow> a = b"
  by (cases a; cases b) (auto simp: date_less_def)

lemma toordinal_inj:
  assumes "valid_date a" and "valid_date b" and "toordinal a = toordinal b"
  shows "a = b"
  using toordinal_mono [OF assms(1,2)] toordinal_mono [OF assms(2,1)] assms(3) date_less_total
  by (fastforce)

lemma days_before_year_10000: "days_before_year 10000 = 3652059"
  by (simp add: days_before_year_def)

lemma toordinal_bounds:
  assumes "valid_date a"
  shows "1 \<le> toordinal a" and "toordinal a \<le> 3652059"
proof -
  from day_of_year_bounds(1) [OF assms] show "1 \<le> toordinal a"
    by (simp add: toordinal_def)
  from assms have y: "1 \<le> year a" "year a < 10000" by (simp_all add: valid_date_def)
  from days_before_year_mono [OF y] day_of_year_bounds(2) [OF assms]
  show "toordinal a \<le> 3652059"
    by (simp add: toordinal_def days_before_year_10000)
qed

lemma month_day_ok:
  assumes "n < 365"
  shows "case month_day l n of (m, d) \<Rightarrow>
    1 \<le> m \<and> m \<le> 12 \<and> 1 \<le> d \<and>
    d \<le> (if m = 2 then (if l then 29 else 28) else if m \<in> {4, 6, 9, 11} then 30 else 31) \<and>
    DAYS_BEFORE_MONTH ! m + (if m > 2 \<and> l then 1 else 0) + d = n + 1"
proof -
  have "1 \<le> (n + 50) div 32" "(n + 50) div 32 \<le> 12"
    using assms by (arith)+
  then have "(n + 50) div 32 \<in> {1, 2, 3, 4, 5, 6, 7, 8, 9, 10, 11, 12}"
    by (rule month_cases)
  then show ?thesis
  proof (elim insertE emptyE)
    assume m: "(n + 50) div 32 = 1"
    then have "n < 14" by (arith)
    with m assms show ?thesis
      by (auto simp: month_day_def DAYS_BEFORE_MONTH_def DAYS_IN_MONTH_def)
  next
    assume m: "(n + 50) div 32 = 2"
    then have "14 \<le> n" "n < 46" by (arith)+
    with m assms show ?thesis
      by (auto simp: month_day_def DAYS_BEFORE_MONTH_def DAYS_IN_MONTH_def)
  next
    assume m: "(n + 50) div 32 = 3"
    then have "46 \<le> n" "n < 78" by (arith)+
    with m assms show ?thesis
      by (auto simp: month_day_def DAYS_BEFORE_MONTH_def DAYS_IN_MONTH_def)
  next
    assume m: "(n + 50) div 32 = 4"
    then have "78 \<le> n" "n < 110" by (arith)+
    with m assms show ?thesis
      by (auto simp: month_day_def DAYS_BEFORE_MONTH_def DAYS_IN_MONTH_def)
  next
    assume m: "(n + 50) div 32 = 5"
    then have "110 \<le> n" "n < 142" by (arith)+
    with m assms show ?thesis
      by (auto simp: month_day_def DAYS_BEFORE_MONTH_def DAYS_IN_MONTH_def)
  next
    assume m: "(n + 50) div 32 = 6"
    then have "142 \<le> n" "n < 174" by (arith)+
    with m assms show ?thesis
      by (auto simp: month_day_def DAYS_BEFORE_MONTH_def DAYS_IN_MONTH_def)
  next
    assume m: "(n + 50) div 32 = 7"
    then have "174 \<le> n" "n < 206" by (arith)+
    with m assms show ?thesis
      by (auto simp: month_day_def DAYS_BEFORE_MONTH_def DAYS_IN_MONTH_def)
  next
    assume m: "(n + 50) div 32 = 8"
    then have "206 \<le> n" "n < 238" by (arith)+
    with m assms show ?thesis
      by (auto simp: month_day_def DAYS_BEFORE_MONTH_def DAYS_IN_MONTH_def)
  next
    assume m: "(n + 50) div 32 = 9"
    then have "238 \<le> n" "n < 270" by (arith)+
    with m assms show ?thesis
      by (auto simp: month_day_def DAYS_BEFORE_MONTH_def DAYS_IN_MONTH_def)
  next
    assume m: "(n + 50) div 32 = 10"
    then have "270 \<le> n" "n < 302" by (arith)+
    with m assms show ?thesis
      by (auto simp: month_day_def DAYS_BEFORE_MONTH_def DAYS_IN_MONTH_def)
  next
    assume m: "(n + 50) div 32 = 11"
    then have "302 \<le> n" "n < 334" by (arith)+
    with m assms show ?thesis
      by (auto simp: month_day_def DAYS_BEFORE_MONTH_def DAYS_IN_MONTH_def)
  next
    assume m: "(n + 50) div 32 = 12"
    then have "334 \<le> n" "n < 366" by (arith)+
    with m assms show ?thesis
      by (auto simp: month_day_def DAYS_BEFORE_MONTH_def DAYS_IN_MONTH_def)
  qed
qed

text \<open>
  A year number written as \<open>400 a + 100 b + 4 c + e + 1\<close> with \<open>b \<le> 3\<close>, \<open>c \<le> 24\<close> and
  \<open>e \<le> 3\<close>: the days before it and its leap test, in terms of the four digits.
\<close>

lemma year_digits_div:
  assumes "b \<le> 3" and "c \<le> 24" and "e \<le> (3::nat)"
  shows "(400 * a + 100 * b + 4 * c + e) div 4 = 100 * a + 25 * b + c"
    and "(400 * a + 100 * b + 4 * c + e) div 100 = 4 * a + b"
    and "(400 * a + 100 * b + 4 * c + e) div 400 = a"
  using assms by (arith)+

lemma days_before_year_digits:
  assumes "b \<le> 3" and "c \<le> 24" and "e \<le> 3"
  shows "days_before_year (Suc (400 * a + 100 * b + 4 * c + e)) =
    146097 * a + 36524 * b + 1461 * c + 365 * e"
  by (simp add: days_before_year_def year_digits_div [OF assms])

lemma mod_of_small:
  assumes "r \<le> (k::nat)" and "0 < r"
  shows "((r + k * q) mod k = 0) = (r = k)"
proof (cases "r = k")
  case True
  then show ?thesis by simp
next
  case False
  with assms have "r < k" by simp
  then have "(r + k * q) mod k = r" by simp
  with assms(2) False show ?thesis by simp
qed

lemma is_leap_digits:
  assumes "b \<le> 3" and "c \<le> 24" and "e \<le> 3"
  shows "is_leap (Suc (400 * a + 100 * b + 4 * c + e)) = (e = 3 \<and> (c \<noteq> 24 \<or> b = 3))"
proof -
  let ?y = "Suc (400 * a + 100 * b + 4 * c + e)"
  have y4: "?y = (e + 1) + 4 * (100 * a + 25 * b + c)"
    and y100: "?y = (4 * c + e + 1) + 100 * (4 * a + b)"
    and y400: "?y = (100 * b + 4 * c + e + 1) + 400 * a"
    by simp_all
  have b4: "e + 1 \<le> 4" and b100: "4 * c + e + 1 \<le> 100"
    and b400: "100 * b + 4 * c + e + 1 \<le> 400"
    using assms by simp_all
  have a4: "(e + 1 = 4) = (e = 3)"
    by (arith)
  have a100: "(4 * c + e + 1 = 100) = (e = 3 \<and> c = 24)"
    using assms by (presburger)
  have a400: "(100 * b + 4 * c + e + 1 = 400) = (e = 3 \<and> c = 24 \<and> b = 3)"
  proof
    assume eq: "100 * b + 4 * c + e + 1 = 400"
    with b100 assms(1) have "b = 3" by linarith
    with eq have "4 * c + e + 1 = 100" by simp
    with a100 \<open>b = 3\<close> show "e = 3 \<and> c = 24 \<and> b = 3" by simp
  next
    assume "e = 3 \<and> c = 24 \<and> b = 3"
    then show "100 * b + 4 * c + e + 1 = 400" by simp
  qed
  have m4: "(?y mod 4 = 0) = (e = 3)"
    unfolding y4 by (subst mod_of_small [OF b4]) (use a4 in simp_all)
  have m100: "(?y mod 100 = 0) = (e = 3 \<and> c = 24)"
    unfolding y100 by (subst mod_of_small [OF b100]) (use a100 in simp_all)
  have m400: "(?y mod 400 = 0) = (e = 3 \<and> c = 24 \<and> b = 3)"
    unfolding y400 by (subst mod_of_small [OF b400]) (use a400 in simp_all)
  show ?thesis
    unfolding is_leap_def m4 m100 m400 by blast
qed

text \<open>
  \<open>ord2ymd\<close> inverts \<open>toordinal\<close>: the date it gives for a day number is a calendar date
  (but for the upper bound on the year) and has that day number.
\<close>

lemma ord2ymd_roundtrip:
  assumes "1 \<le> k"
  shows "toordinal (ord2ymd k) = k \<and> 1 \<le> year (ord2ymd k) \<and>
    1 \<le> month (ord2ymd k) \<and> month (ord2ymd k) \<le> 12 \<and> 1 \<le> day (ord2ymd k) \<and>
    day (ord2ymd k) \<le> days_in_month (year (ord2ymd k)) (month (ord2ymd k))"
proof -
  define n where "n = k - 1"
  define a where "a = n div 146097"
  define r where "r = n mod 146097"
  define b where "b = r div 36524"
  define r2 where "r2 = r mod 36524"
  define c where "c = r2 div 1461"
  define r3 where "r3 = r2 mod 1461"
  define e where "e = r3 div 365"
  define r4 where "r4 = r3 mod 365"
  define L where "L = (e = 3 \<and> (c \<noteq> 24 \<or> b = 3))"
  have k: "k = Suc n" using assms by (simp add: n_def)
  have n: "n = 146097 * a + r" and r: "r = 36524 * b + r2" and r2: "r2 = 1461 * c + r3"
    and r3: "r3 = 365 * e + r4"
    by (simp_all add: a_def r_def b_def r2_def c_def r3_def e_def r4_def)
  have lt: "r < 146097" "r2 < 36524" "r3 < 1461" "r4 < 365"
    by (simp_all add: r_def r2_def r3_def r4_def)
  have ord: "ord2ymd k =
      (if e = 4 \<or> b = 4 then Date (400 * a + 100 * b + 4 * c + e) 12 31
       else (case month_day L r4 of (m, d) \<Rightarrow> Date (Suc (400 * a + 100 * b + 4 * c + e)) m d))"
    unfolding ord2ymd_def month_day_def Let_def
      n_def [symmetric] a_def [symmetric] r_def [symmetric] b_def [symmetric]
      r2_def [symmetric] c_def [symmetric] r3_def [symmetric] e_def [symmetric]
      r4_def [symmetric] L_def [symmetric]
    by (simp add: algebra_simps)
  have bounds: "b \<le> 4" "c \<le> 24" "e \<le> 4"
    using r r2 r3 lt by linarith+
  consider (A) "b = 4" | (B) "b \<le> 3" "e = 4" | (C) "b \<le> 3" "e \<le> 3"
    using bounds by linarith
  then show ?thesis
  proof cases
    case A
    with r lt have "r2 = 0" by linarith
    with r2 r3 have z: "c = 0" "e = 0" "r4 = 0" by simp_all
    have y: "400 * a + 100 * b + 4 * c + e = Suc (400 * a + 100 * 3 + 4 * 24 + 3)"
      using A z by simp
    have d: "days_before_year (400 * a + 100 * b + 4 * c + e) = 146097 * a + 145731"
      unfolding y by (subst days_before_year_digits) simp_all
    have l: "is_leap (400 * a + 100 * b + 4 * c + e)"
      unfolding y by (subst is_leap_digits) simp_all
    have "k = 146097 * a + 146097"
      using k n r A \<open>r2 = 0\<close> by simp
    moreover have date: "ord2ymd k = Date (400 * a + 100 * b + 4 * c + e) 12 31"
      using A by (simp add: ord)
    ultimately have "toordinal (Date (400 * a + 100 * b + 4 * c + e) 12 31) = k \<and>
        1 \<le> 400 * a + 100 * b + 4 * c + e \<and>
        31 \<le> days_in_month (400 * a + 100 * b + 4 * c + e) 12"
      using A d l
      by (simp add: toordinal_def days_before_month_def DAYS_BEFORE_MONTH_def days_in_month_def)
    then show ?thesis
      unfolding date by simp
  next
    case B
    with r3 lt have "r4 = 0" by linarith
    from B r3 r2 lt have c: "c \<le> 23" by linarith
    have y: "400 * a + 100 * b + 4 * c + e = Suc (400 * a + 100 * b + 4 * c + 3)"
      using B by simp
    have d: "days_before_year (400 * a + 100 * b + 4 * c + e) =
        146097 * a + 36524 * b + 1461 * c + 1095"
      unfolding y using B(1) c by (subst days_before_year_digits) simp_all
    have l: "is_leap (400 * a + 100 * b + 4 * c + e)"
      unfolding y using B(1) c by (subst is_leap_digits) simp_all
    have "k = 146097 * a + 36524 * b + 1461 * c + 1461"
      using k n r r2 r3 B \<open>r4 = 0\<close> by simp
    moreover have date: "ord2ymd k = Date (400 * a + 100 * b + 4 * c + e) 12 31"
      using B by (simp add: ord)
    ultimately have "toordinal (Date (400 * a + 100 * b + 4 * c + e) 12 31) = k \<and>
        1 \<le> 400 * a + 100 * b + 4 * c + e \<and>
        31 \<le> days_in_month (400 * a + 100 * b + 4 * c + e) 12"
      using B d l
      by (simp add: toordinal_def days_before_month_def DAYS_BEFORE_MONTH_def days_in_month_def)
    then show ?thesis
      unfolding date by simp
  next
    case C
    obtain m d where md: "month_day L r4 = (m, d)" by (cases "month_day L r4") auto
    from month_day_ok [OF lt(4), of L] md
    have m: "1 \<le> m" "m \<le> 12" and dd: "1 \<le> d"
      "d \<le> (if m = 2 then (if L then 29 else 28) else if m \<in> {4, 6, 9, 11} then 30 else 31)"
      and s: "DAYS_BEFORE_MONTH ! m + (if m > 2 \<and> L then 1 else 0) + d = r4 + 1"
      by simp_all
    have date: "ord2ymd k = Date (Suc (400 * a + 100 * b + 4 * c + e)) m d"
      using C md by (simp add: ord)
    have dy: "days_before_year (Suc (400 * a + 100 * b + 4 * c + e)) =
        146097 * a + 36524 * b + 1461 * c + 365 * e"
      by (rule days_before_year_digits [OF C(1) bounds(2) C(2)])
    have l: "is_leap (Suc (400 * a + 100 * b + 4 * c + e)) = L"
      unfolding L_def by (rule is_leap_digits [OF C(1) bounds(2) C(2)])
    have "k = 146097 * a + 36524 * b + 1461 * c + 365 * e + r4 + 1"
      using k n r r2 r3 by simp
    with s dy l
    have "toordinal (Date (Suc (400 * a + 100 * b + 4 * c + e)) m d) = k"
      by (simp add: toordinal_def days_before_month_def)
    moreover have "d \<le> days_in_month (Suc (400 * a + 100 * b + 4 * c + e)) m"
      unfolding days_in_month_def l by (rule dd(2))
    ultimately show ?thesis
      unfolding date using m dd(1) by simp
  qed
qed

lemma ord2ymd_valid:
  assumes "1 \<le> k" and "k \<le> 3652059"
  shows "valid_date (ord2ymd k)"
proof -
  let ?d = "ord2ymd k"
  note rt = ord2ymd_roundtrip [OF assms(1)]
  have "year ?d \<le> 9999"
  proof (rule ccontr)
    assume "\<not> year ?d \<le> 9999"
    then have "year ?d = 10000 \<or> 10000 < year ?d" by auto
    then have "3652059 \<le> days_before_year (year ?d)"
    proof
      assume "year ?d = 10000"
      then show ?thesis by (simp add: days_before_year_10000)
    next
      assume "10000 < year ?d"
      from days_before_year_mono [OF _ this] show ?thesis
        by (simp add: days_before_year_10000 split: if_splits)
    qed
    moreover from rt have "toordinal ?d = k" "1 \<le> day ?d" by simp_all
    ultimately show False
      using assms(2) by (simp add: toordinal_def)
  qed
  with rt show ?thesis
    by (simp add: valid_date_def)
qed

lemma ord2ymd_toordinal:
  assumes "valid_date a"
  shows "ord2ymd (toordinal a) = a"
proof -
  note b = toordinal_bounds [OF assms]
  from ord2ymd_roundtrip [OF b(1)] have "toordinal (ord2ymd (toordinal a)) = toordinal a"
    by simp
  from toordinal_inj [OF ord2ymd_valid [OF b] assms this] show ?thesis .
qed

lemma strptime_Ymd_valid:
  assumes "strptime_Ymd s = Inr a"
  shows "valid_date a"
  using assms
  by (auto simp: strptime_Ymd_def finish_strptime_def split: list.splits prod.splits if_splits)

section \<open>HistorySynthesizer: the rouble\<close>

lemma rub_points_range:
  assumes "\<forall>i\<in>set js. 1 \<le> base + i \<and> base + i \<le> 3652059"
  shows "rub_points base js acc =
    Inr (acc @ map (\<lambda>i. \<lparr>point_date = isoformat (ord2ymd (base + i)),
                          point_rub_per_unit = Finite 1\<rparr>) js)"
  using assms
  by (induction js arbitrary: acc) (simp_all add: fromordinal_def)

lemma rub_points_upt:
  assumes "1 \<le> lo" and "lo \<le> hi" and "hi \<le> 3652059"
  shows "rub_points lo [0 ..< nat (int hi - int lo + 1)] [] = Inr (rub_series lo hi)"
proof -
  have n: "nat (int hi - int lo + 1) = Suc hi - lo"
    using assms(2) by simp
  have "\<forall>i\<in>set [0 ..< Suc hi - lo]. 1 \<le> lo + i \<and> lo + i \<le> 3652059"
    using assms by auto
  from rub_points_range [OF this, of "[]"]
  have "rub_points lo [0 ..< Suc hi - lo] [] =
      Inr (map (\<lambda>k. \<lparr>point_date = isoformat (ord2ymd k), point_rub_per_unit = Finite 1\<rparr>)
             (map (\<lambda>i. i + lo) [0 ..< Suc hi - lo]))"
    by (simp add: comp_def add.commute)
  also have "map (\<lambda>i. i + lo) [0 ..< Suc hi - lo] = [lo ..< Suc hi]"
    using assms(2) by (simp add: map_add_upt)
  finally show ?thesis
    by (simp add: n rub_series_def)
qed

text \<open>
  The rouble branch of \<open>fetch_history\<close> on two dates that parse: the series over the day
  numbers between the earlier and the later date, the arguments echoed as they came,
  and the state untouched.
\<close>

lemma fetch_history_rub:
  assumes "upper code = ''RUB''"
    and "strptime_Ymd date_from = Inr a" and "strptime_Ymd date_to = Inr b"
  shows "fetch_history env code date_from date_to st =
    (Inr (History \<lparr>hist_code = ''RUB'', hist_name = RUB_NAME, hist_from = date_from,
            hist_to = date_to,
            hist_points = rub_series (min (toordinal a) (toordinal b))
                            (max (toordinal a) (toordinal b))\<rparr>), st)"
proof -
  note va = strptime_Ymd_valid [OF assms(2)] and vb = strptime_Ymd_valid [OF assms(3)]
  show ?thesis
  proof (cases "date_less b a")
    case True
    from toordinal_mono [OF vb va True] have lt: "toordinal b < toordinal a" .
    then have mm: "min (toordinal a) (toordinal b) = toordinal b"
      "max (toordinal a) (toordinal b) = toordinal a" by simp_all
    from rub_points_upt [OF toordinal_bounds(1) [OF vb] _ toordinal_bounds(2) [OF va]] lt
    have "rub_points (toordinal b) [0 ..< nat (int (toordinal a) - int (toordinal b) + 1)] [] =
        Inr (rub_series (toordinal b) (toordinal a))" by simp
    with True show ?thesis
      by (simp add: fetch_history_def assms mm)
  next
    case False
    have le: "toordinal a \<le> toordinal b"
    proof (cases "date_less a b")
      case True
      from toordinal_mono [OF va vb True] show ?thesis by simp
    next
      case F: False
      from date_less_total [OF F False] show ?thesis by simp
    qed
    then have mm: "min (toordinal a) (toordinal b) = toordinal a"
      "max (toordinal a) (toordinal b) = toordinal b" by simp_all
    from rub_points_upt [OF toordinal_bounds(1) [OF va] le toordinal_bounds(2) [OF vb]]
    have "rub_points (toordinal a) [0 ..< nat (int (toordinal b) - int (toordinal a) + 1)] [] =
        Inr (rub_series (toordinal a) (toordinal b))" .
    with False show ?thesis
      by (simp add: fetch_history_def assms mm)
  qed
qed

text \<open>
  Claim C4. For a code that upper-cases to \<open>RUB\<close> and two dates that parse, with \<open>lo\<close> and
  \<open>hi\<close> the day numbers of the earlier and the later one, \<open>fetch_history\<close> returns the
  state as it was (no upstream call, no clock reading, no cache write) and a history with
  exactly \<open>hi - lo + 1\<close> points. The \<open>i\<close>-th point is quoted at 1.0 and dated with the ISO
  form of the calendar date whose day number is \<open>lo + i\<close>; these dates ascend, the first
  is the earlier and the last the later of the two dates given.
\<close>

theorem rub_history_series:
  assumes "upper code = ''RUB''"
    and "strptime_Ymd date_from = Inr a" and "strptime_Ymd date_to = Inr b"
    and "lo = min (toordinal a) (toordinal b)" and "hi = max (toordinal a) (toordinal b)"
  shows "\<exists>points.
    fetch_history env code date_from date_to st =
      (Inr (History \<lparr>hist_code = ''RUB'', hist_name = RUB_NAME, hist_from = date_from,
              hist_to = date_to, hist_points = points\<rparr>), st) \<and>
    length points = hi - lo + 1 \<and>
    (\<forall>i. i \<le> hi - lo \<longrightarrow>
       points ! i = \<lparr>point_date = isoformat (ord2ymd (lo + i)), point_rub_per_unit = Finite 1\<rparr> \<and>
       valid_date (ord2ymd (lo + i)) \<and> toordinal (ord2ymd (lo + i)) = lo + i) \<and>
    (\<forall>i j. i < j \<and> j \<le> hi - lo \<longrightarrow> date_less (ord2ymd (lo + i)) (ord2ymd (lo + j))) \<and>
    ord2ymd lo = (if date_less b a then b else a) \<and>
    ord2ymd hi = (if date_less b a then a else b)"
proof -
  note va = strptime_Ymd_valid [OF assms(2)] and vb = strptime_Ymd_valid [OF assms(3)]
  have lo1: "1 \<le> lo" and hi_max: "hi \<le> 3652059" and le: "lo \<le> hi"
    using toordinal_bounds [OF va] toordinal_bounds [OF vb] by (auto simp: assms(4,5))
  have run: "fetch_history env code date_from date_to st =
      (Inr (History \<lparr>hist_code = ''RUB'', hist_name = RUB_NAME, hist_from = date_from,
              hist_to = date_to, hist_points = rub_series lo hi\<rparr>), st)"
    unfolding assms(4,5) by (rule fetch_history_rub [OF assms(1-3)])
  have len: "length (rub_series lo hi) = hi - lo + 1"
    using le by (simp add: rub_series_def)
  have day: "valid_date (ord2ymd (lo + i)) \<and> toordinal (ord2ymd (lo + i)) = lo + i"
    if "i \<le> hi - lo" for i
  proof -
    from that le lo1 hi_max have "1 \<le> lo + i" "lo + i \<le> 3652059" by simp_all
    from ord2ymd_valid [OF this] ord2ymd_roundtrip [OF this(1)] show ?thesis by simp
  qed
  have pt: "rub_series lo hi ! i =
      \<lparr>point_date = isoformat (ord2ymd (lo + i)), point_rub_per_unit = Finite 1\<rparr>"
    if "i \<le> hi - lo" for i
  proof -
    from that le have lt: "lo + i < Suc hi" by simp
    then have "i < length [lo ..< Suc hi]" by simp
    moreover from lt have "[lo ..< Suc hi] ! i = lo + i" by (rule nth_upt)
    ultimately show ?thesis
      unfolding rub_series_def by (simp only: nth_map)
  qed
  have asc: "date_less (ord2ymd (lo + i)) (ord2ymd (lo + j))" if "i < j \<and> j \<le> hi - lo" for i j
  proof (rule ccontr)
    assume n: "\<not> date_less (ord2ymd (lo + i)) (ord2ymd (lo + j))"
    from that have i: "i \<le> hi - lo" and j: "j \<le> hi - lo" by simp_all
    show False
    proof (cases "date_less (ord2ymd (lo + j)) (ord2ymd (lo + i))")
      case True
      from toordinal_mono [OF _ _ True] day [OF i] day [OF j] that show False by simp
    next
      case False
      from date_less_total [OF n False] day [OF i] day [OF j] that show False
        by (metis add_left_cancel less_irrefl)
    qed
  qed
  have ends: "ord2ymd lo = (if date_less b a then b else a) \<and>
      ord2ymd hi = (if date_less b a then a else b)"
  proof (cases "date_less b a")
    case True
    from toordinal_mono [OF vb va True] have "lo = toordinal b" "hi = toordinal a"
      by (simp_all add: assms(4,5))
    with True ord2ymd_toordinal [OF va] ord2ymd_toordinal [OF vb] show ?thesis by simp
  next
    case False
    have "toordinal a \<le> toordinal b"
    proof (cases "date_less a b")
      case True
      from toordinal_mono [OF va vb True] show ?thesis by simp
    next
      case F: False
      from date_less_total [OF F False] show ?thesis by simp
    qed
    then have "lo = toordinal a" "hi = toordinal b"
      by (simp_all add: assms(4,5))
    with False ord2ymd_toordinal [OF va] ord2ymd_toordinal [OF vb] show ?thesis by simp
  qed
  from run len day pt asc ends show ?thesis by blast
qed

text \<open>
  Claim C4 on the range from 2024-01-01 to 2024-01-05, asked with the code in lower
  case: five points, one for each day, in ascending order, and the state untouched.
\<close>

theorem rub_history_series_witness:
  "fetch_history (sample_env (daily_upstream sample_daily)) ''rub'' ''2024-01-01'' ''2024-01-05''
     empty_state =
   (Inr (History \<lparr>hist_code = ''RUB'', hist_name = RUB_NAME, hist_from = ''2024-01-01'',
           hist_to = ''2024-01-05'',
           hist_points =
             [\<lparr>point_date = ''2024-01-01'', point_rub_per_unit = Finite 1\<rparr>,
              \<lparr>point_date = ''2024-01-02'', point_rub_per_unit = Finite 1\<rparr>,
              \<lparr>point_date = ''2024-01-03'', point_rub_per_unit = Finite 1\<rparr>,
              \<lparr>point_date = ''2024-01-04'', point_rub_per_unit = Finite 1\<rparr>,
              \<lparr>point_date = ''2024-01-05'', point_rub_per_unit = Finite 1\<rparr>]\<rparr>),
    empty_state)"
proof -
  have ords: "toordinal (Date 2024 1 1) = 738886" "toordinal (Date 2024 1 5) = 738890"
    by (simp_all add: toordinal_def days_before_year_def days_before_month_def
        DAYS_BEFORE_MONTH_def is_leap_def)
  have lo: "738886 = min (toordinal (Date 2024 1 1)) (toordinal (Date 2024 1 5))"
    and hi: "738890 = max (toordinal (Date 2024 1 1)) (toordinal (Date 2024 1 5))"
    unfolding ords by simp_all
  have days: "ord2ymd 738886 = Date 2024 1 1" "ord2ymd 738887 = Date 2024 1 2"
    "ord2ymd 738888 = Date 2024 1 3" "ord2ymd 738889 = Date 2024 1 4"
    "ord2ymd 738890 = Date 2024 1 5"
    by (simp_all add: ord2ymd_def Let_def DAYS_BEFORE_MONTH_def DAYS_IN_MONTH_def)
  have names: "isoformat (Date 2024 1 1) = ''2024-01-01''"
    "isoformat (Date 2024 1 2) = ''2024-01-02''"
    "isoformat (Date 2024 1 3) = ''2024-01-03''"
    "isoformat (Date 2024 1 4) = ''2024-01-04''"
    "isoformat (Date 2024 1 5) = ''2024-01-05''"
    by code_simp+
  have iso: "isoformat (ord2ymd 738886) = ''2024-01-01''"
    "isoformat (ord2ymd 738887) = ''2024-01-02''"
    "isoformat (ord2ymd 738888) = ''2024-01-03''"
    "isoformat (ord2ymd 738889) = ''2024-01-04''"
    "isoformat (ord2ymd 738890) = ''2024-01-05''"
    unfolding days by (rule names)+
  from rub_history_series [OF upper_samples(7) date_samples(2) date_samples(3) lo hi,
      of "sample_env (daily_upstream sample_daily)" empty_state]
  obtain points where
    run: "fetch_history (sample_env (daily_upstream sample_daily)) ''rub'' ''2024-01-01''
        ''2024-01-05'' empty_state =
      (Inr (History \<lparr>hist_code = ''RUB'', hist_name = RUB_NAME, hist_from = ''2024-01-01'',
              hist_to = ''2024-01-05'', hist_points = points\<rparr>), empty_state)"
    and len: "length points = 5"
    and pt: "\<forall>i. i \<le> 4 \<longrightarrow> points ! i =
      \<lparr>point_date = isoformat (ord2ymd (738886 + i)), point_rub_per_unit = Finite 1\<rparr>"
    by auto
  have "points = map (\<lambda>i. points ! i) [0 ..< 5]"
    using len map_nth [of points] by simp
  also have "[0 ..< 5] = [0, 1, 2, 3, 4::nat]"
    by (simp add: upt_rec)
  finally have "points = [points ! 0, points ! 1, points ! 2, points ! 3, points ! 4]"
    by simp
  moreover from pt have "points ! 0 =
      \<lparr>point_date = isoformat (ord2ymd (738886 + 0)), point_rub_per_unit = Finite 1\<rparr>"
    "points ! 1 =
      \<lparr>point_date = isoformat (ord2ymd (738886 + 1)), point_rub_per_unit = Finite 1\<rparr>"
    "points ! 2 =
      \<lparr>point_date = isoformat (ord2ymd (738886 + 2)), point_rub_per_unit = Finite 1\<rparr>"
    "points ! 3 =
      \<lparr>point_date = isoformat (ord2ymd (738886 + 3)), point_rub_per_unit = Finite 1\<rparr>"
    "points ! 4 =
      \<lparr>point_date = isoformat (ord2ymd (738886 + 4)), point_rub_per_unit = Finite 1\<rparr>"
    by simp_all
  ultimately have "points =
      [\<lparr>point_date = ''2024-01-01'', point_rub_per_unit = Finite 1\<rparr>,
       \<lparr>point_date = ''2024-01-02'', point_rub_per_unit = Finite 1\<rparr>,
       \<lparr>point_date = ''2024-01-03'', point_rub_per_unit = Finite 1\<rparr>,
       \<lparr>point_date = ''2024-01-04'', point_rub_per_unit = Finite 1\<rparr>,
       \<lparr>point_date = ''2024-01-05'', point_rub_per_unit = Finite 1\<rparr>]"
    by (simp add: iso)
  with run show ?thesis by simp
qed

section \<open>HistorySynthesizer: the order of the range\<close>









end
